theory Spec2Isabelle
  imports Main "HOL-Library.AList" "HOL-Library.Word"
begin

section \<open>JavaScript strings and arrays\<close>

text \<open>
  A JavaScript string is a sequence of 16-bit code units. \<open>str\<close> turns an ASCII
  literal into one.
\<close>

type_synonym jschar = "16 word"

type_synonym jsstring = "jschar list"

definition str :: "string \<Rightarrow> jsstring" where
  "str s = map (\<lambda>c. of_nat (of_char c)) s"

text \<open>
  The character classes of the language: white space is tab, vertical tab, form feed,
  space, no-break space, the byte order mark and the other space separators of Unicode;
  a line terminator is line feed, carriage return, line separator or paragraph
  separator. \<open>\s\<close> in a regular expression and \<open>trim\<close> take both; \<open>.\<close>
  takes every code unit but a line terminator; \<open>\d\<close> is an ASCII digit.
\<close>

definition isLineTerminator :: "jschar \<Rightarrow> bool" where
  "isLineTerminator c = (c \<in> {10, 13, 8232, 8233})"

definition isWhiteSpace :: "jschar \<Rightarrow> bool" where
  "isWhiteSpace c =
     (c \<in> {9, 11, 12, 32, 160, 5760, 8239, 8287, 12288, 65279}
      \<or> (8192 \<le> c \<and> c \<le> 8202))"

definition isSpaceChar :: "jschar \<Rightarrow> bool" where
  "isSpaceChar c = (isWhiteSpace c \<or> isLineTerminator c)"

definition isDigitChar :: "jschar \<Rightarrow> bool" where
  "isDigitChar c = (48 \<le> c \<and> c \<le> 57)"

text \<open>\<open>String.prototype.startsWith\<close>, \<open>substring\<close> with one argument, \<open>trim\<close>.\<close>

definition startsWith :: "jsstring \<Rightarrow> jsstring \<Rightarrow> bool" where
  "startsWith s p = (take (length p) s = p)"

definition substring :: "jsstring \<Rightarrow> nat \<Rightarrow> jsstring" where
  "substring s n = drop n s"

definition trim :: "jsstring \<Rightarrow> jsstring" where
  "trim s = rev (dropWhile isSpaceChar (rev (dropWhile isSpaceChar s)))"

text \<open>
  \<open>s.split(":")\<close>: the pieces between the colons. The result always has a first
  element, so it is the pair of \<open>parts[0]\<close> and the list of the pieces after it;
  \<open>parts[1]\<close> is \<open>undefined\<close> when that list is empty.
\<close>

fun splitColon :: "jsstring \<Rightarrow> jsstring \<times> jsstring list" where
  "splitColon [] = ([], [])"
| "splitColon (c # cs) =
     (let (p, ps) = splitColon cs
      in if c = 58 then ([], p # ps) else (c # p, ps))"

text \<open>
  \<open>String.prototype.indexOf\<close> and \<open>includes\<close> with a string argument: the first
  position at which the argument starts, or \<open>-1\<close>.
\<close>

fun strIndexOf :: "jsstring \<Rightarrow> jsstring \<Rightarrow> int" where
  "strIndexOf [] x = (if x = [] then 0 else -1)"
| "strIndexOf (c # cs) x =
     (if startsWith (c # cs) x then 0
      else (let i = strIndexOf cs x in if i = -1 then -1 else i + 1))"

definition strIncludes :: "jsstring \<Rightarrow> jsstring \<Rightarrow> bool" where
  "strIncludes s x = (strIndexOf s x \<noteq> -1)"

text \<open>
  Iterating a string (\<open>[...s]\<close>) yields its code points: a high surrogate followed by
  a low surrogate is one element, every other code unit is an element of its own.
\<close>

fun codePoints :: "jsstring \<Rightarrow> jsstring list" where
  "codePoints [] = []"
| "codePoints [c] = [[c]]"
| "codePoints (c # d # cs) =
     (if 55296 \<le> c \<and> c \<le> 56319 \<and> 56320 \<le> d \<and> d \<le> 57343
      then [c, d] # codePoints cs
      else [c] # codePoints (d # cs))"

text \<open>
  \<open>Array.prototype.indexOf\<close>: the first index holding the element, or \<open>-1\<close>.
\<close>

fun indexOf :: "'a list \<Rightarrow> 'a \<Rightarrow> int" where
  "indexOf [] x = -1"
| "indexOf (y # ys) x =
     (if y = x then 0 else (let i = indexOf ys x in if i = -1 then -1 else i + 1))"

text \<open>
  \<open>Array.prototype.splice(start, deleteCount, ...items)\<close>: a negative start counts
  from the end, a start beyond the end is the length, and the delete count is clamped
  to what is left. The result is the pair of the removed elements and the array as it
  is afterwards.
\<close>

definition splice :: "'a list \<Rightarrow> int \<Rightarrow> int \<Rightarrow> 'a list \<Rightarrow> 'a list \<times> 'a list" where
  "splice xs start deleteCount items =
     (let len = int (length xs);
          st = (if start < 0 then max (len + start) 0 else min start len);
          dc = min (max deleteCount 0) (len - st)
      in (take (nat dc) (drop (nat st) xs),
          take (nat st) xs @ items @ drop (nat (st + dc)) xs))"

text \<open>The only exception the code can raise by itself.\<close>

datatype jsError = TypeError

section \<open>Objects used as dictionaries\<close>

text \<open>
  A \<open>Record<string, V>\<close> is an ordinary object: its own properties, in creation
  order with unique keys, and its prototype. The prototype is \<open>Object.prototype\<close>
  (\<open>None\<close>) unless an assignment to the key \<open>__proto__\<close> has replaced it by the
  value assigned (\<open>Some v\<close>).
\<close>

record 'v dict =
  own :: "(jsstring \<times> 'v) list"
  proto :: "'v option"

definition emptyDict :: "'v dict" where
  "emptyDict = \<lparr>own = [], proto = None\<rparr>"

definition protoKey :: jsstring where
  "protoKey = str ''__proto__''"

text \<open>
  The names of the properties of \<open>Object.prototype\<close> (ECMAScript, with Annex B). All
  hold functions, but \<open>__proto__\<close>, an accessor for the prototype of the object it is
  read from or assigned to.
\<close>

definition objectPrototypeNames :: "jsstring list" where
  "objectPrototypeNames =
     map str [''constructor'', ''hasOwnProperty'', ''isPrototypeOf'',
       ''propertyIsEnumerable'', ''toLocaleString'', ''toString'', ''valueOf'',
       ''__proto__'', ''__defineGetter__'', ''__defineSetter__'',
       ''__lookupGetter__'', ''__lookupSetter__'']"

text \<open>
  \<open>obj[k] = v\<close> for an object \<open>v\<close>: an own property is overwritten in place; the
  key \<open>__proto__\<close>, when it is not an own property, reaches the inherited setter, which
  makes \<open>v\<close> the prototype and creates no property; any other key becomes a new own
  property at the end (the inherited properties of that name are writable data
  properties).
\<close>

definition assign :: "'v dict \<Rightarrow> jsstring \<Rightarrow> 'v \<Rightarrow> 'v dict" where
  "assign d k v =
     (if k = protoKey \<and> map_of (own d) k = None then d\<lparr>proto := Some v\<rparr>
      else d\<lparr>own := AList.update k v (own d)\<rparr>)"

text \<open>
  A computed key in an object literal, \<open>{ ..., [k]: v }\<close>, defines an own property
  whatever the key is.
\<close>

definition defineKey :: "'v dict \<Rightarrow> jsstring \<Rightarrow> 'v \<Rightarrow> 'v dict" where
  "defineKey d k v = d\<lparr>own := AList.update k v (own d)\<rparr>"

definition deleteKey :: "'v dict \<Rightarrow> jsstring \<Rightarrow> 'v dict" where
  "deleteKey d k = d\<lparr>own := AList.delete k (own d)\<rparr>"

text \<open>
  Enumeration (\<open>Object.keys\<close>, object spread) visits the own keys that are array
  indices (canonical decimal numerals below \<open>2^32 - 1\<close>) first, in ascending numeric
  order, and then the other own keys in creation order.
\<close>

definition digitsValue :: "jsstring \<Rightarrow> int" where
  "digitsValue s = foldl (\<lambda>n c. 10 * n + (uint c - 48)) 0 s"

definition isArrayIndex :: "jsstring \<Rightarrow> bool" where
  "isArrayIndex s =
     (s \<noteq> [] \<and> list_all isDigitChar s \<and> \<not> (hd s = 48 \<and> 1 < length s)
      \<and> digitsValue s < 4294967295)"

definition entries :: "(jsstring \<times> 'v) list \<Rightarrow> (jsstring \<times> 'v) list" where
  "entries ps =
     sort_key (\<lambda>e. digitsValue (fst e)) (filter (\<lambda>e. isArrayIndex (fst e)) ps)
     @ filter (\<lambda>e. \<not> isArrayIndex (fst e)) ps"

definition ownEntries :: "'v dict \<Rightarrow> (jsstring \<times> 'v) list" where
  "ownEntries d = entries (own d)"

definition ownKeys :: "'v dict \<Rightarrow> jsstring list" where
  "ownKeys d = map fst (ownEntries d)"

text \<open>
  \<open>{ ...obj }\<close>: a fresh object with the own properties in enumeration order and
  \<open>Object.prototype\<close> as its prototype.
\<close>

definition spreadDict :: "'v dict \<Rightarrow> 'v dict" where
  "spreadDict d = \<lparr>own = ownEntries d, proto = None\<rparr>"

subsection \<open>Reading a dictionary of arrays\<close>

text \<open>
  What \<open>dict[k]\<close> can be for a dictionary whose own values are arrays of sub-topic
  names (an element of such an array can be \<open>undefined\<close>, \<open>None\<close>): an own array;
  nothing; or an inherited value. With \<open>Object.prototype\<close> as the prototype the
  inherited values are the functions of \<open>objectPrototypeNames\<close> and, for
  \<open>__proto__\<close>, \<open>Object.prototype\<close> itself: objects that are truthy, are not
  iterable and have no method the code calls. With an array as the prototype,
  \<open>length\<close> is its length, an index below the length is its element, \<open>__proto__\<close>
  is the array itself, and the names of the properties of \<open>Array.prototype\<close> hold
  functions. Those names depend on the engine and are a parameter, \<open>arrayNames\<close>.
\<close>

datatype lval =
  LUndefined
| LArray "jsstring option list"
| LString jsstring
| LNumber nat
| LObject

definition getList :: "jsstring list \<Rightarrow> jsstring option list dict \<Rightarrow> jsstring \<Rightarrow> lval" where
  "getList arrayNames d k =
     (case map_of (own d) k of
        Some xs \<Rightarrow> LArray xs
      | None \<Rightarrow>
          (case proto d of
             None \<Rightarrow> if k \<in> set objectPrototypeNames then LObject else LUndefined
           | Some arr \<Rightarrow>
               if k = str ''length'' then LNumber (length arr)
               else if isArrayIndex k \<and> nat (digitsValue k) < length arr
               then (case arr ! nat (digitsValue k) of
                       None \<Rightarrow> LUndefined
                     | Some s \<Rightarrow> LString s)
               else if k = protoKey then LArray arr
               else if k \<in> set arrayNames \<or> k \<in> set objectPrototypeNames then LObject
               else LUndefined))"

text \<open>\<open>v || []\<close>: the empty array replaces \<open>undefined\<close>, \<open>0\<close> and \<open>""\<close>.\<close>

definition orEmpty :: "lval \<Rightarrow> lval" where
  "orEmpty v =
     (case v of
        LUndefined \<Rightarrow> LArray []
      | LNumber n \<Rightarrow> if n = 0 then LArray [] else v
      | LString s \<Rightarrow> if s = [] then LArray [] else v
      | _ \<Rightarrow> v)"

text \<open>
  The operations the code applies to such a value. \<open>includes\<close> and \<open>indexOf\<close>
  exist on arrays and on strings; arrays and strings can be spread; \<open>map\<close>,
  \<open>filter\<close> and \<open>push\<close> exist on arrays only. Anything else is a
  \<open>TypeError\<close>.
\<close>

definition valIncludes :: "lval \<Rightarrow> jsstring \<Rightarrow> jsError + bool" where
  "valIncludes v x =
     (case v of
        LArray xs \<Rightarrow> Inr (Some x \<in> set xs)
      | LString s \<Rightarrow> Inr (strIncludes s x)
      | _ \<Rightarrow> Inl TypeError)"

definition valIndexOf :: "lval \<Rightarrow> jsstring \<Rightarrow> jsError + int" where
  "valIndexOf v x =
     (case v of
        LArray xs \<Rightarrow> Inr (indexOf xs (Some x))
      | LString s \<Rightarrow> Inr (strIndexOf s x)
      | _ \<Rightarrow> Inl TypeError)"

definition valSpread :: "lval \<Rightarrow> jsError + jsstring option list" where
  "valSpread v =
     (case v of
        LArray xs \<Rightarrow> Inr xs
      | LString s \<Rightarrow> Inr (map Some (codePoints s))
      | _ \<Rightarrow> Inl TypeError)"

definition valArray :: "lval \<Rightarrow> jsError + jsstring option list" where
  "valArray v = (case v of LArray xs \<Rightarrow> Inr xs | _ \<Rightarrow> Inl TypeError)"

section \<open>The store: \<open>store/QuestionStore.ts\<close>\<close>

text \<open>
  A question. \<open>topic\<close> is declared a string and \<open>subTopic\<close> a string or
  \<open>null\<close>; the ingestion can leave both \<open>undefined\<close>, so \<open>topic\<close> is
  optional and \<open>subTopic\<close> has three forms.
\<close>

datatype nullable = Undefined | Null | Value jsstring

record questionRef =
  ref_id :: jsstring
  name :: jsstring
  difficulty :: jsstring
  platform :: jsstring
  problemUrl :: jsstring

record question =
  q_id :: jsstring
  title :: jsstring
  topic :: "jsstring option"
  subTopic :: nullable
  resource :: "jsstring option"
  questionId :: questionRef

record sheetConfig =
  topicOrder :: "jsstring list"
  subTopicOrder :: "jsstring option list dict"
  questionOrder :: "jsstring list"

text \<open>
  The \<open>error\<close> field holds the message of the error caught: a message the code
  gives itself, or the message of a \<open>TypeError\<close> raised by the engine, whose text is
  the engine's.
\<close>

datatype errorMessage = Message jsstring | EngineMessage

record questionState =
  config :: sheetConfig
  questions :: "question list"
  loading :: bool
  error :: "errorMessage option"

definition initialState :: questionState where
  "initialState =
     \<lparr>config = \<lparr>topicOrder = [], subTopicOrder = emptyDict, questionOrder = []\<rparr>,
      questions = [], loading = False, error = None\<rparr>"

text \<open>
  An action that reads the sub-topic dictionary can throw; it then has not called
  \<open>set\<close>, and the store is as it was. \<open>stateAfter s r\<close> is the store after a call
  with outcome \<open>r\<close> made in state \<open>s\<close>.
\<close>

definition stateAfter :: "questionState \<Rightarrow> jsError + questionState \<Rightarrow> questionState" where
  "stateAfter s r = (case r of Inl e \<Rightarrow> s | Inr s' \<Rightarrow> s')"

subsection \<open>Topic actions\<close>

definition addTopic :: "questionState \<Rightarrow> jsstring \<Rightarrow> questionState" where
  "addTopic s topicName =
     (if topicName \<notin> set (topicOrder (config s))
      then s\<lparr>config := (config s)\<lparr>topicOrder := topicOrder (config s) @ [topicName]\<rparr>\<rparr>
      else s)"

text \<open>
  In \<open>editTopic\<close> the new dictionary starts empty and receives, for every own key of
  the old one in enumeration order, the old value under the renamed key, by assignment.
\<close>

definition editTopic :: "questionState \<Rightarrow> jsstring \<Rightarrow> jsstring \<Rightarrow> questionState" where
  "editTopic s oldName newName =
     (let updatedTopicOrder =
            map (\<lambda>t. if t = oldName then newName else t) (topicOrder (config s));
          updatedSubTopicOrder =
            fold (\<lambda>(key, v) acc. assign acc (if key = oldName then newName else key) v)
              (ownEntries (subTopicOrder (config s))) emptyDict;
          updatedQuestions =
            map (\<lambda>q. if topic q = Some oldName then q\<lparr>topic := Some newName\<rparr> else q)
              (questions s)
      in s\<lparr>config := (config s)\<lparr>topicOrder := updatedTopicOrder,
                                subTopicOrder := updatedSubTopicOrder\<rparr>,
           questions := updatedQuestions\<rparr>)"

definition deleteTopic :: "questionState \<Rightarrow> jsstring \<Rightarrow> questionState" where
  "deleteTopic s topicName =
     (let updatedTopicOrder = filter (\<lambda>t. t \<noteq> topicName) (topicOrder (config s));
          updatedSubTopicOrder = deleteKey (spreadDict (subTopicOrder (config s))) topicName;
          updatedQuestions = filter (\<lambda>q. topic q \<noteq> Some topicName) (questions s);
          updatedQuestionOrder =
            filter (\<lambda>qId. list_ex (\<lambda>q. q_id q = qId) updatedQuestions)
              (questionOrder (config s))
      in s\<lparr>config := \<lparr>topicOrder = updatedTopicOrder,
                       subTopicOrder = updatedSubTopicOrder,
                       questionOrder = updatedQuestionOrder\<rparr>,
           questions := updatedQuestions\<rparr>)"

definition reorderTopics :: "questionState \<Rightarrow> jsstring list \<Rightarrow> questionState" where
  "reorderTopics s newOrder = s\<lparr>config := (config s)\<lparr>topicOrder := newOrder\<rparr>\<rparr>"

subsection \<open>SubTopic actions\<close>

text \<open>
  Each of them starts from \<open>config.subTopicOrder[topicName] || []\<close> and stores
  \<open>{ ...config.subTopicOrder, [topicName]: ... }\<close>.
\<close>

definition addSubTopic ::
  "jsstring list \<Rightarrow> questionState \<Rightarrow> jsstring \<Rightarrow> jsstring \<Rightarrow> jsError + questionState" where
  "addSubTopic arrayNames s topicName subTopicName =
     (let currentSubTopics = orEmpty (getList arrayNames (subTopicOrder (config s)) topicName)
      in case valIncludes currentSubTopics subTopicName of
           Inl e \<Rightarrow> Inl e
         | Inr found \<Rightarrow>
             if found then Inr s
             else (case valSpread currentSubTopics of
                     Inl e \<Rightarrow> Inl e
                   | Inr items \<Rightarrow>
                       Inr (s\<lparr>config := (config s)\<lparr>subTopicOrder :=
                              defineKey (spreadDict (subTopicOrder (config s))) topicName
                                (items @ [Some subTopicName])\<rparr>\<rparr>)))"

definition editSubTopic ::
  "jsstring list \<Rightarrow> questionState \<Rightarrow> jsstring \<Rightarrow> jsstring \<Rightarrow> jsstring
     \<Rightarrow> jsError + questionState" where
  "editSubTopic arrayNames s topicName oldName newName =
     (let currentSubTopics = orEmpty (getList arrayNames (subTopicOrder (config s)) topicName)
      in case valArray currentSubTopics of
           Inl e \<Rightarrow> Inl e
         | Inr items \<Rightarrow>
             (let updatedSubTopics =
                    map (\<lambda>st. if st = Some oldName then Some newName else st) items;
                  updatedQuestions =
                    map (\<lambda>q. if topic q = Some topicName \<and> subTopic q = Value oldName
                              then q\<lparr>subTopic := Value newName\<rparr> else q) (questions s)
              in Inr (s\<lparr>config := (config s)\<lparr>subTopicOrder :=
                         defineKey (spreadDict (subTopicOrder (config s))) topicName
                           updatedSubTopics\<rparr>,
                       questions := updatedQuestions\<rparr>)))"

definition deleteSubTopic ::
  "jsstring list \<Rightarrow> questionState \<Rightarrow> jsstring \<Rightarrow> jsstring \<Rightarrow> jsError + questionState" where
  "deleteSubTopic arrayNames s topicName subTopicName =
     (let currentSubTopics = orEmpty (getList arrayNames (subTopicOrder (config s)) topicName)
      in case valArray currentSubTopics of
           Inl e \<Rightarrow> Inl e
         | Inr items \<Rightarrow>
             (let updatedSubTopics = filter (\<lambda>st. st \<noteq> Some subTopicName) items;
                  updatedQuestions =
                    map (\<lambda>q. if topic q = Some topicName \<and> subTopic q = Value subTopicName
                              then q\<lparr>subTopic := Null\<rparr> else q) (questions s)
              in Inr (s\<lparr>config := (config s)\<lparr>subTopicOrder :=
                         defineKey (spreadDict (subTopicOrder (config s))) topicName
                           updatedSubTopics\<rparr>,
                       questions := updatedQuestions\<rparr>)))"

definition reorderSubTopics ::
  "questionState \<Rightarrow> jsstring \<Rightarrow> jsstring option list \<Rightarrow> questionState" where
  "reorderSubTopics s topicName newOrder =
     s\<lparr>config := (config s)\<lparr>subTopicOrder :=
          defineKey (spreadDict (subTopicOrder (config s))) topicName newOrder\<rparr>\<rparr>"

definition moveSubTopicToTopic ::
  "jsstring list \<Rightarrow> questionState \<Rightarrow> jsstring \<Rightarrow> jsstring \<Rightarrow> jsstring
     \<Rightarrow> jsError + questionState" where
  "moveSubTopicToTopic arrayNames s subTopicName fromTopic toTopic =
     (let sourceSubTopics = orEmpty (getList arrayNames (subTopicOrder (config s)) fromTopic)
      in case valArray sourceSubTopics of
           Inl e \<Rightarrow> Inl e
         | Inr sourceItems \<Rightarrow>
             (let updatedSourceSubTopics = filter (\<lambda>st. st \<noteq> Some subTopicName) sourceItems;
                  destSubTopics =
                    orEmpty (getList arrayNames (subTopicOrder (config s)) toTopic)
              in case valSpread destSubTopics of
                   Inl e \<Rightarrow> Inl e
                 | Inr destItems \<Rightarrow>
                     (let updatedDestSubTopics = destItems @ [Some subTopicName];
                          updatedQuestions =
                            map (\<lambda>q. if topic q = Some fromTopic
                                         \<and> subTopic q = Value subTopicName
                                      then q\<lparr>topic := Some toTopic\<rparr> else q) (questions s)
                      in Inr (s\<lparr>config := (config s)\<lparr>subTopicOrder :=
                                 defineKey
                                   (defineKey (spreadDict (subTopicOrder (config s)))
                                      fromTopic updatedSourceSubTopics)
                                   toTopic updatedDestSubTopics\<rparr>,
                               questions := updatedQuestions\<rparr>))))"

subsection \<open>Question actions\<close>

text \<open>
  A \<open>Partial<Question>\<close>: every field may be absent; \<open>resource\<close> may also be
  present and \<open>null\<close>.
\<close>

record partialQuestion =
  p_id :: "jsstring option"
  p_title :: "jsstring option"
  p_topic :: "jsstring option"
  p_subTopic :: "nullable option"
  p_resource :: "jsstring option option"
  p_questionId :: "questionRef option"

text \<open>Decimal rendering of \<open>Date.now()\<close> inside the template string.\<close>

function showNat :: "nat \<Rightarrow> jsstring" where
  "showNat n =
     (if n < 10 then [of_nat (48 + n)]
      else showNat (n div 10) @ [of_nat (48 + n mod 10)])"
  by pat_completeness auto
termination
  by (relation "measure id") auto

text \<open>\<open>x || d\<close> on an optional string: the default replaces \<open>undefined\<close> and \<open>""\<close>.\<close>

definition strOr :: "jsstring option \<Rightarrow> jsstring \<Rightarrow> jsstring" where
  "strOr x d = (case x of None \<Rightarrow> d | Some v \<Rightarrow> if v = [] then d else v)"

text \<open>\<open>x || null\<close> on the optional sub-topic and on the optional resource.\<close>

definition subTopicOrNull :: "nullable option \<Rightarrow> nullable" where
  "subTopicOrNull x =
     (case x of
        Some (Value v) \<Rightarrow> if v = [] then Null else Value v
      | _ \<Rightarrow> Null)"

definition strOrNull :: "jsstring option option \<Rightarrow> jsstring option" where
  "strOrNull x =
     (case x of None \<Rightarrow> None | Some None \<Rightarrow> None
      | Some (Some v) \<Rightarrow> if v = [] then None else Some v)"

definition addQuestion :: "nat \<Rightarrow> questionState \<Rightarrow> partialQuestion \<Rightarrow> questionState" where
  "addQuestion now s pq =
     (let newQuestion =
            \<lparr>q_id = str ''temp_'' @ showNat now,
             title = strOr (p_title pq) (str ''New Question''),
             topic = Some (strOr (p_topic pq) []),
             subTopic = subTopicOrNull (p_subTopic pq),
             resource = strOrNull (p_resource pq),
             questionId =
               (case p_questionId pq of
                  Some r \<Rightarrow> r
                | None \<Rightarrow> \<lparr>ref_id = [], name = [], difficulty = str ''Medium'',
                            platform = [], problemUrl = []\<rparr>)\<rparr>
      in s\<lparr>questions := questions s @ [newQuestion],
           config := (config s)\<lparr>questionOrder :=
             questionOrder (config s) @ [q_id newQuestion]\<rparr>\<rparr>)"

text \<open>\<open>{ ...q, ...updates }\<close>: the fields present in \<open>updates\<close> replace those of \<open>q\<close>.\<close>

definition applyUpdates :: "question \<Rightarrow> partialQuestion \<Rightarrow> question" where
  "applyUpdates q u =
     \<lparr>q_id = (case p_id u of None \<Rightarrow> q_id q | Some v \<Rightarrow> v),
      title = (case p_title u of None \<Rightarrow> title q | Some v \<Rightarrow> v),
      topic = (case p_topic u of None \<Rightarrow> topic q | Some v \<Rightarrow> Some v),
      subTopic = (case p_subTopic u of None \<Rightarrow> subTopic q | Some v \<Rightarrow> v),
      resource = (case p_resource u of None \<Rightarrow> resource q | Some v \<Rightarrow> v),
      questionId = (case p_questionId u of None \<Rightarrow> questionId q | Some v \<Rightarrow> v)\<rparr>"

definition editQuestion :: "questionState \<Rightarrow> jsstring \<Rightarrow> partialQuestion \<Rightarrow> questionState" where
  "editQuestion s qid updates =
     s\<lparr>questions := map (\<lambda>q. if q_id q = qid then applyUpdates q updates else q) (questions s)\<rparr>"

definition deleteQuestion :: "questionState \<Rightarrow> jsstring \<Rightarrow> questionState" where
  "deleteQuestion s qid =
     (let updatedQuestions = filter (\<lambda>q. q_id q \<noteq> qid) (questions s);
          updatedQuestionOrder = filter (\<lambda>i. i \<noteq> qid) (questionOrder (config s))
      in s\<lparr>questions := updatedQuestions,
           config := (config s)\<lparr>questionOrder := updatedQuestionOrder\<rparr>\<rparr>)"

definition reorderQuestions :: "questionState \<Rightarrow> jsstring list \<Rightarrow> questionState" where
  "reorderQuestions s newOrder = s\<lparr>config := (config s)\<lparr>questionOrder := newOrder\<rparr>\<rparr>"

definition moveQuestionToSubTopic ::
  "questionState \<Rightarrow> jsstring \<Rightarrow> jsstring option \<Rightarrow> nullable \<Rightarrow> questionState" where
  "moveQuestionToSubTopic s qid toTopic toSubTopic =
     s\<lparr>questions :=
          map (\<lambda>q. if q_id q = qid then q\<lparr>topic := toTopic, subTopic := toSubTopic\<rparr> else q)
            (questions s)\<rparr>"

subsection \<open>Filtered reads\<close>

definition getQuestionsByTopic :: "questionState \<Rightarrow> jsstring \<Rightarrow> question list" where
  "getQuestionsByTopic s topicName = filter (\<lambda>q. topic q = Some topicName) (questions s)"

definition getQuestionsBySubTopic ::
  "questionState \<Rightarrow> jsstring \<Rightarrow> jsstring \<Rightarrow> question list" where
  "getQuestionsBySubTopic s topicName subTopicName =
     filter (\<lambda>q. topic q = Some topicName \<and> subTopic q = Value subTopicName) (questions s)"

subsection \<open>Ingestion: \<open>fetchSheetData\<close>\<close>

text \<open>
  The body of the HTTP response, \<open>response.data.data\<close>: each part the code tests for
  may be missing. The request itself either is rejected (with the message of the error
  thrown, if it is an \<open>Error\<close>) or is fulfilled with a body.
\<close>

record apiConfig =
  api_topicOrder :: "jsstring list option"
  api_questionOrder :: "jsstring list option"

record apiSheet =
  sheet_config :: "apiConfig option"

record apiData =
  sheet :: "apiSheet option"
  api_questions :: "question list option"

datatype response = Rejected "jsstring option" | Fulfilled apiData

text \<open>
  The regular expression \<open>/^(.*?)\s+(Part-[IVX]+|part-\d+)$/i\<close>. With the \<open>i\<close>
  flag both alternatives are \<open>part-\<close> followed by a non-empty run of the letters
  i, v, x or by a non-empty run of digits, in either case of the letters; only the ASCII
  letters match, since the canonicalisation never maps a code unit of 128 or more to an
  ASCII one. \<open>matchPartSuffix\<close> is the second group up to the end of the string,
  \<open>matchTail\<close> is \<open>\s+\<close> followed by it: since the group starts with a letter,
  \<open>\s+\<close> takes the whole run of white space. The first group is lazy and starts at
  the beginning of the string, so \<open>partMatch\<close> returns the shortest prefix without
  a line terminator after which the tail matches.
\<close>

definition toLowerChar :: "jschar \<Rightarrow> jschar" where
  "toLowerChar c = (if 65 \<le> c \<and> c \<le> 90 then c + 32 else c)"

definition matchPartSuffix :: "jsstring \<Rightarrow> bool" where
  "matchPartSuffix t =
     (map toLowerChar (take 5 t) = str ''part-'' \<and> drop 5 t \<noteq> []
      \<and> (list_all (\<lambda>c. toLowerChar c \<in> set (str ''ivx'')) (drop 5 t)
           \<or> list_all isDigitChar (drop 5 t)))"

definition matchTail :: "jsstring \<Rightarrow> bool" where
  "matchTail t =
     (takeWhile isSpaceChar t \<noteq> [] \<and> matchPartSuffix (dropWhile isSpaceChar t))"

fun partMatchFrom :: "jsstring \<Rightarrow> jsstring \<Rightarrow> jsstring option" where
  "partMatchFrom pre [] = None"
| "partMatchFrom pre (c # cs) =
     (if matchTail (c # cs) then Some pre
      else if isLineTerminator c then None
      else partMatchFrom (pre @ [c]) cs)"

definition partMatch :: "jsstring \<Rightarrow> jsstring option" where
  "partMatch t = partMatchFrom [] t"

text \<open>
  First pass (the body of \<open>config.topicOrder.forEach\<close>): one topic into the groups.
  \<open>pushToGroup\<close> is
  \<^verbatim>\<open>if (!topicGroups[base]) { topicGroups[base] = []; } topicGroups[base].push(topic);\<close>
  The value read is falsy when it is \<open>undefined\<close>, \<open>0\<close> or \<open>""\<close>. The push goes
  to the own array of that key; or, when the key is \<open>__proto__\<close> and the prototype
  has been replaced by an array, to that array; any other value has no \<open>push\<close>.
\<close>

definition isFalsy :: "lval \<Rightarrow> bool" where
  "isFalsy v =
     (case v of
        LUndefined \<Rightarrow> True
      | LNumber n \<Rightarrow> n = 0
      | LString s \<Rightarrow> s = []
      | _ \<Rightarrow> False)"

definition pushToGroup ::
  "jsstring list \<Rightarrow> jsstring option list dict \<Rightarrow> jsstring \<Rightarrow> jsstring
     \<Rightarrow> jsError + jsstring option list dict" where
  "pushToGroup arrayNames topicGroups baseTopic t =
     (let groups1 = (if isFalsy (getList arrayNames topicGroups baseTopic)
                     then assign topicGroups baseTopic [] else topicGroups)
      in case map_of (own groups1) baseTopic of
           Some members \<Rightarrow>
             Inr (groups1\<lparr>own := AList.update baseTopic (members @ [Some t]) (own groups1)\<rparr>)
         | None \<Rightarrow>
             (case getList arrayNames groups1 baseTopic of
                LArray prototypeArray \<Rightarrow>
                  Inr (groups1\<lparr>proto := Some (prototypeArray @ [Some t])\<rparr>)
              | _ \<Rightarrow> Inl TypeError))"

definition groupTopic ::
  "jsstring list \<Rightarrow> jsstring list \<Rightarrow> jsstring \<Rightarrow> jsstring option list dict
     \<Rightarrow> jsError + jsstring option list dict" where
  "groupTopic arrayNames allTopics t topicGroups =
     (case partMatch t of
        Some g1 \<Rightarrow> pushToGroup arrayNames topicGroups (trim g1) t
      | None \<Rightarrow>
          (let hasPartTopics = list_ex (\<lambda>u. startsWith u (t @ str '' Part-'')) allTopics
           in if hasPartTopics then pushToGroup arrayNames topicGroups t t
              else Inr (assign topicGroups t [])))"

text \<open>A \<open>forEach\<close> whose body can throw: the first exception ends it.\<close>

fun forEachE :: "('a \<Rightarrow> 'b \<Rightarrow> jsError + 'b) \<Rightarrow> 'a list \<Rightarrow> 'b \<Rightarrow> jsError + 'b" where
  "forEachE f [] acc = Inr acc"
| "forEachE f (x # xs) acc =
     (case f x acc of Inl e \<Rightarrow> Inl e | Inr acc' \<Rightarrow> forEachE f xs acc')"

text \<open>
  Second pass (the body of \<open>Object.keys(topicGroups).forEach\<close>) on the triple of
  \<open>transformedTopicOrder\<close>, \<open>transformedSubTopicOrder\<close> and \<open>topicMapping\<close>.
  It visits the own keys, so \<open>topicGroups[baseTopic]\<close> is the own array of the key.
  A value of \<open>topicMapping\<close> is an object with the two properties \<open>topic\<close> and
  \<open>subtopic\<close>. A member used as a key or as a sub-topic is a string; were it
  \<open>undefined\<close>, the key would be the string \<open>undefined\<close>.
\<close>

type_synonym topicMapping = "(jsstring \<times> nullable) dict"

definition keyOf :: "jsstring option \<Rightarrow> jsstring" where
  "keyOf m = (case m of None \<Rightarrow> str ''undefined'' | Some k \<Rightarrow> k)"

definition subTopicOf :: "jsstring option \<Rightarrow> nullable" where
  "subTopicOf m = (case m of None \<Rightarrow> Undefined | Some k \<Rightarrow> Value k)"

definition transformGroup ::
  "jsstring \<times> jsstring option list
     \<Rightarrow> jsstring list \<times> jsstring option list dict \<times> topicMapping
     \<Rightarrow> jsstring list \<times> jsstring option list dict \<times> topicMapping" where
  "transformGroup g acc =
     (case (g, acc) of
        ((baseTopic, members), (tto, tsto, tm)) \<Rightarrow>
          if length members > 1
          then (tto @ [baseTopic], assign tsto baseTopic members,
                fold (\<lambda>originalTopic m.
                        assign m (keyOf originalTopic) (baseTopic, subTopicOf originalTopic))
                  members tm)
          else (tto @ [baseTopic], tsto, assign tm baseTopic (baseTopic, Null)))"

definition transformTopics ::
  "jsstring list \<Rightarrow> jsstring list
     \<Rightarrow> jsError + jsstring list \<times> jsstring option list dict \<times> topicMapping" where
  "transformTopics arrayNames allTopics =
     (case forEachE (groupTopic arrayNames allTopics) allTopics emptyDict of
        Inl e \<Rightarrow> Inl e
      | Inr topicGroups \<Rightarrow>
          Inr (fold transformGroup (ownEntries topicGroups) ([], emptyDict, emptyDict)))"

text \<open>
  \<open>topicMapping[q.topic]\<close>: an own mapping; nothing; or an inherited value. With
  \<open>Object.prototype\<close> as the prototype the inherited values are truthy objects
  without the properties \<open>topic\<close> and \<open>subtopic\<close>. With a mapping as the
  prototype, the keys \<open>topic\<close> and \<open>subtopic\<close> read its two properties
  (strings, which have no such properties either, or \<open>null\<close>), and \<open>__proto__\<close>
  reads the mapping itself.
\<close>

datatype mval = MFalsy | MMapping jsstring nullable | MOther

definition getMapping :: "topicMapping \<Rightarrow> jsstring \<Rightarrow> mval" where
  "getMapping d k =
     (case map_of (own d) k of
        Some (t, st) \<Rightarrow> MMapping t st
      | None \<Rightarrow>
          (case proto d of
             None \<Rightarrow> if k \<in> set objectPrototypeNames then MOther else MFalsy
           | Some (t, st) \<Rightarrow>
               if k = str ''topic'' then (if t = [] then MFalsy else MOther)
               else if k = str ''subtopic''
               then (case st of Value v \<Rightarrow> if v = [] then MFalsy else MOther | _ \<Rightarrow> MFalsy)
               else if k = protoKey then MMapping t st
               else if k \<in> set objectPrototypeNames then MOther
               else MFalsy))"

text \<open>
  The body of \<open>questions.map\<close>: a truthy value that is no mapping gives
  \<open>undefined\<close> for both \<open>mapping.topic\<close> and \<open>mapping.subtopic\<close>.
\<close>

definition transformQuestion :: "topicMapping \<Rightarrow> question \<Rightarrow> question" where
  "transformQuestion tm q =
     (case getMapping tm (keyOf (topic q)) of
        MMapping t st \<Rightarrow> q\<lparr>topic := Some t, subTopic := st\<rparr>
      | MOther \<Rightarrow> q\<lparr>topic := None, subTopic := Undefined\<rparr>
      | MFalsy \<Rightarrow> q)"

text \<open>The \<open>catch\<close> block.\<close>

definition fetchFailed :: "questionState \<Rightarrow> errorMessage \<Rightarrow> questionState" where
  "fetchFailed s msg = s\<lparr>error := Some msg, loading := False\<rparr>"

text \<open>
  \<open>fetchSheetData\<close> from the first \<open>set\<close> to the last, on the outcome of the
  request. Reading \<open>sheet.config\<close> of a missing \<open>sheet\<close> throws a \<open>TypeError\<close>,
  as the first pass can.
\<close>

definition fetchSheetData :: "jsstring list \<Rightarrow> questionState \<Rightarrow> response \<Rightarrow> questionState" where
  "fetchSheetData arrayNames s r =
     (let s0 = s\<lparr>loading := True, error := None\<rparr>
      in case r of
           Rejected m \<Rightarrow>
             fetchFailed s0
               (Message (case m of Some msg \<Rightarrow> msg | None \<Rightarrow> str ''Failed to fetch data''))
         | Fulfilled d \<Rightarrow>
             (case sheet d of
                None \<Rightarrow> fetchFailed s0 EngineMessage
              | Some sh \<Rightarrow>
                  (case sheet_config sh of
                     None \<Rightarrow> fetchFailed s0 (Message (str ''Invalid data structure from API''))
                   | Some cfg \<Rightarrow>
                       (case api_topicOrder cfg of
                          None \<Rightarrow>
                            fetchFailed s0 (Message (str ''Invalid data structure from API''))
                        | Some allTopics \<Rightarrow>
                            (case api_questions d of
                               None \<Rightarrow>
                                 fetchFailed s0
                                   (Message (str ''Invalid data structure from API''))
                             | Some qs \<Rightarrow>
                                 (case transformTopics arrayNames allTopics of
                                    Inl e \<Rightarrow> fetchFailed s0 EngineMessage
                                  | Inr (tto, tsto, tm) \<Rightarrow>
                                      s0\<lparr>config :=
                                            \<lparr>topicOrder = tto, subTopicOrder = tsto,
                                             questionOrder =
                                               (case api_questionOrder cfg of
                                                  None \<Rightarrow> [] | Some qo \<Rightarrow> qo)\<rparr>,
                                          questions := map (transformQuestion tm) qs,
                                          loading := False\<rparr>))))))"

section \<open>The drag handler: \<open>handleDragEnd\<close> in \<open>App.tsx\<close>\<close>

text \<open>
  The identifiers of the draggable elements are \<open>topic:{name}\<close>,
  \<open>subtopic:{topic}:{subtopic}\<close> and \<open>question:{id}\<close>. \<open>parseId\<close> returns
  \<open>null\<close> on any other string; the second part of a sub-topic identifier is
  \<open>undefined\<close> when the string has no second colon.
\<close>

datatype parsedId =
  PTopic jsstring
| PSubtopic jsstring "jsstring option"
| PQuestion jsstring

definition parseId :: "jsstring \<Rightarrow> parsedId option" where
  "parseId ident =
     (if startsWith ident (str ''topic:'') then Some (PTopic (substring ident 6))
      else if startsWith ident (str ''subtopic:'') then
        (let (p0, ps) = splitColon (substring ident 9)
         in Some (PSubtopic p0 (case ps of [] \<Rightarrow> None | p1 # _ \<Rightarrow> Some p1)))
      else if startsWith ident (str ''question:'') then Some (PQuestion (substring ident 9))
      else None)"

text \<open>The \<open>type\<close> field of a parsed identifier.\<close>

definition idType :: "parsedId \<Rightarrow> string" where
  "idType p =
     (case p of
        PTopic _ \<Rightarrow> ''topic''
      | PSubtopic _ _ \<Rightarrow> ''subtopic''
      | PQuestion _ \<Rightarrow> ''question'')"

text \<open>
  The three lines shared by every reordering branch:
  \<^verbatim>\<open>const copy = [...xs]; const [removed] = copy.splice(oldIndex, 1);
  copy.splice(newIndex, 0, removed);\<close>
  \<open>removed\<close> is \<open>undefined\<close> when nothing was removed. For an array of strings the
  result is \<open>None\<close> then; the handler only runs these lines on such an array when
  both indices were found, and then an element is removed (\<open>spliceMove_indexOf\<close>
  below). \<open>spliceMoveU\<close> is the same on an array whose elements can be
  \<open>undefined\<close>.
\<close>

definition spliceMove :: "'a list \<Rightarrow> int \<Rightarrow> int \<Rightarrow> 'a list option" where
  "spliceMove xs oldIndex newIndex =
     (case splice xs oldIndex 1 [] of
        (removedElems, rest) \<Rightarrow>
          (case removedElems of
             [] \<Rightarrow> None
           | removed # _ \<Rightarrow> Some (snd (splice rest newIndex 0 [removed]))))"

definition spliceMoveU :: "'a option list \<Rightarrow> int \<Rightarrow> int \<Rightarrow> 'a option list" where
  "spliceMoveU xs oldIndex newIndex =
     (case splice xs oldIndex 1 [] of
        (removedElems, rest) \<Rightarrow>
          (let removed = (case removedElems of [] \<Rightarrow> None | r # _ \<Rightarrow> r)
           in snd (splice rest newIndex 0 [removed])))"

text \<open>
  The three \<open>if\<close> blocks of the handler. Each reads \<open>config\<close> and \<open>questions\<close>
  from the state \<open>s\<close> the handler was created with and applies the store actions to
  the current state \<open>cur\<close>. Only the block for sub-topics reads the dictionary, so
  only it can throw.
\<close>

definition dragTopic ::
  "questionState \<Rightarrow> parsedId \<Rightarrow> parsedId \<Rightarrow> questionState \<Rightarrow> questionState" where
  "dragTopic s a b cur =
     (case (a, b) of
        (PTopic activeName, PTopic overName) \<Rightarrow>
          if activeName \<noteq> [] \<and> overName \<noteq> [] then
            (let oldIndex = indexOf (topicOrder (config s)) activeName;
                 newIndex = indexOf (topicOrder (config s)) overName
             in if oldIndex \<noteq> -1 \<and> newIndex \<noteq> -1
                then (case spliceMove (topicOrder (config s)) oldIndex newIndex of
                        Some newTopics \<Rightarrow> reorderTopics cur newTopics
                      | None \<Rightarrow> cur)
                else cur)
          else cur
      | _ \<Rightarrow> cur)"

definition dragSubTopic ::
  "jsstring list \<Rightarrow> questionState \<Rightarrow> parsedId \<Rightarrow> parsedId \<Rightarrow> questionState
     \<Rightarrow> jsError + questionState" where
  "dragSubTopic arrayNames s a b cur =
     (case (a, b) of
        (PSubtopic fromTopic (Some activeSub), PSubtopic toTopic (Some overSub)) \<Rightarrow>
          if fromTopic \<noteq> [] \<and> activeSub \<noteq> [] \<and> toTopic \<noteq> [] \<and> overSub \<noteq> [] then
            (if fromTopic = toTopic then
               (let subTopics =
                      orEmpty (getList arrayNames (subTopicOrder (config s)) fromTopic)
                in case valIndexOf subTopics activeSub of
                     Inl e \<Rightarrow> Inl e
                   | Inr oldIndex \<Rightarrow>
                       (case valIndexOf subTopics overSub of
                          Inl e \<Rightarrow> Inl e
                        | Inr newIndex \<Rightarrow>
                            if oldIndex \<noteq> -1 \<and> newIndex \<noteq> -1
                            then (case valSpread subTopics of
                                    Inl e \<Rightarrow> Inl e
                                  | Inr copy \<Rightarrow>
                                      Inr (reorderSubTopics cur fromTopic
                                             (spliceMoveU copy oldIndex newIndex)))
                            else Inr cur))
             else moveSubTopicToTopic arrayNames cur activeSub fromTopic toTopic)
          else Inr cur
      | _ \<Rightarrow> Inr cur)"

text \<open>
  The lines that reorder \<open>questionOrder\<close>; the handler has them twice, once in
  the branch for the same container and once, after \<open>moveQuestionToSubTopic\<close>, in
  the branch for different containers.
\<close>

definition reorderQuestionPair ::
  "questionState \<Rightarrow> jsstring \<Rightarrow> jsstring \<Rightarrow> questionState \<Rightarrow> questionState" where
  "reorderQuestionPair s activeQ overQ cur =
     (let oldIndex = indexOf (questionOrder (config s)) activeQ;
          newIndex = indexOf (questionOrder (config s)) overQ
      in if oldIndex \<noteq> -1 \<and> newIndex \<noteq> -1
         then (case spliceMove (questionOrder (config s)) oldIndex newIndex of
                 Some newQuestions \<Rightarrow> reorderQuestions cur newQuestions
               | None \<Rightarrow> cur)
         else cur)"

definition dragQuestion ::
  "questionState \<Rightarrow> parsedId \<Rightarrow> parsedId \<Rightarrow> questionState \<Rightarrow> questionState" where
  "dragQuestion s a b cur =
     (case (a, b) of
        (PQuestion activeQ, PQuestion overQ) \<Rightarrow>
          if activeQ \<noteq> [] \<and> overQ \<noteq> [] then
            (case (find (\<lambda>q. q_id q = activeQ) (questions s),
                   find (\<lambda>q. q_id q = overQ) (questions s)) of
               (Some activeQuestion, Some overQuestion) \<Rightarrow>
                 (let sameTopic = (topic activeQuestion = topic overQuestion);
                      sameSubTopic = (subTopic activeQuestion = subTopic overQuestion)
                  in if sameTopic \<and> sameSubTopic
                     then reorderQuestionPair s activeQ overQ cur
                     else reorderQuestionPair s activeQ overQ
                            (moveQuestionToSubTopic cur activeQ
                               (topic overQuestion) (subTopic overQuestion)))
             | _ \<Rightarrow> cur)
          else cur
      | _ \<Rightarrow> cur)"

text \<open>
  The handler on the identifier of the dragged element and the identifier of the element
  it was dropped on (\<open>None\<close> when it was dropped on nothing).
\<close>

definition handleDragEnd ::
  "jsstring list \<Rightarrow> questionState \<Rightarrow> jsstring \<Rightarrow> jsstring option \<Rightarrow> jsError + questionState" where
  "handleDragEnd arrayNames s activeId over =
     (case over of
        None \<Rightarrow> Inr s
      | Some overId \<Rightarrow>
          if activeId = overId then Inr s
          else (case (parseId activeId, parseId overId) of
                  (Some a, Some b) \<Rightarrow>
                    (case dragSubTopic arrayNames s a b (dragTopic s a b s) of
                       Inl e \<Rightarrow> Inl e
                     | Inr cur \<Rightarrow> Inr (dragQuestion s a b cur))
                | _ \<Rightarrow> Inr s))"

text \<open>
  The list with the element at index \<open>i\<close> taken out and put back at index \<open>j\<close>
  of the shortened list.
\<close>

definition listMove :: "'a list \<Rightarrow> nat \<Rightarrow> nat \<Rightarrow> 'a list" where
  "listMove xs i j =
     take j (take i xs @ drop (Suc i) xs) @ take 1 (drop i xs)
     @ drop j (take i xs @ drop (Suc i) xs)"

section \<open>Example values\<close>

text \<open>
  The names of the properties of \<open>Array.prototype\<close> in ECMAScript 2023, for the
  examples; the theorems hold for any list of names.
\<close>

definition standardArrayNames :: "jsstring list" where
  "standardArrayNames =
     map str [''constructor'', ''at'', ''concat'', ''copyWithin'', ''fill'', ''find'',
       ''findIndex'', ''findLast'', ''findLastIndex'', ''lastIndexOf'', ''pop'', ''push'',
       ''reverse'', ''shift'', ''unshift'', ''slice'', ''sort'', ''splice'', ''includes'',
       ''indexOf'', ''join'', ''keys'', ''entries'', ''values'', ''forEach'', ''filter'',
       ''flat'', ''flatMap'', ''map'', ''every'', ''some'', ''reduce'', ''reduceRight'',
       ''toLocaleString'', ''toString'', ''toReversed'', ''toSorted'', ''toSpliced'',
       ''with'']"

text \<open>
  Questions \<open>X\<close> and \<open>Z\<close> in topic \<open>C1\<close> and \<open>Y\<close> in topic \<open>C2\<close>, none in
  a sub-topic; a store with \<open>X\<close> and \<open>Y\<close>, and one with all three.
\<close>

definition exampleRef :: questionRef where
  "exampleRef =
     \<lparr>ref_id = str ''r1'', name = str ''Two Sum'', difficulty = str ''Easy'',
      platform = str ''leetcode'', problemUrl = str ''https://example.org/two-sum''\<rparr>"

definition itemX :: question where
  "itemX =
     \<lparr>q_id = str ''X'', title = str ''First'', topic = Some (str ''C1''), subTopic = Null,
      resource = None, questionId = exampleRef\<rparr>"

definition itemY :: question where
  "itemY =
     \<lparr>q_id = str ''Y'', title = str ''Second'', topic = Some (str ''C2''), subTopic = Null,
      resource = None, questionId = exampleRef\<rparr>"

definition itemZ :: question where
  "itemZ =
     \<lparr>q_id = str ''Z'', title = str ''Third'', topic = Some (str ''C1''), subTopic = Null,
      resource = None, questionId = exampleRef\<rparr>"

definition twoItemState :: questionState where
  "twoItemState =
     \<lparr>config = \<lparr>topicOrder = [str ''C1'', str ''C2''], subTopicOrder = emptyDict,
                questionOrder = [str ''X'', str ''Y'']\<rparr>,
      questions = [itemX, itemY], loading = False, error = None\<rparr>"

definition threeItemState :: questionState where
  "threeItemState =
     \<lparr>config = \<lparr>topicOrder = [str ''C1'', str ''C2''], subTopicOrder = emptyDict,
                questionOrder = [str ''X'', str ''Z'', str ''Y'']\<rparr>,
      questions = [itemX, itemZ, itemY], loading = False, error = None\<rparr>"

text \<open>
  Two topics added to the empty store.
\<close>

definition twoTopicState :: questionState where
  "twoTopicState = addTopic (addTopic initialState (str ''A'')) (str ''B'')"

text \<open>
  The empty store after \<open>reorderQuestions(["ghost"])\<close>: an id without a question.
\<close>

definition danglingState :: questionState where
  "danglingState = reorderQuestions initialState [str ''ghost'']"

text \<open>
  A response without \<open>config.questionOrder\<close>, and the store after ingesting it: the
  question is in the collection and the question order is empty.
\<close>

definition itemG :: question where
  "itemG =
     \<lparr>q_id = str ''g1'', title = str ''Clone Graph'', topic = Some (str ''Graphs''),
      subTopic = Null, resource = None, questionId = exampleRef\<rparr>"

definition noOrderPayload :: apiData where
  "noOrderPayload =
     \<lparr>sheet = Some \<lparr>sheet_config =
         Some \<lparr>api_topicOrder = Some [str ''Arrays'', str ''Graphs''],
               api_questionOrder = None\<rparr>\<rparr>,
      api_questions = Some [itemG]\<rparr>"

definition ingestedState :: questionState where
  "ingestedState = fetchSheetData standardArrayNames initialState (Fulfilled noOrderPayload)"

text \<open>
  A response without \<open>questions\<close>.
\<close>

definition noQuestionsPayload :: apiData where
  "noQuestionsPayload =
     \<lparr>sheet = Some \<lparr>sheet_config =
         Some \<lparr>api_topicOrder = Some [str ''Arrays'', str ''Graphs''],
               api_questionOrder = None\<rparr>\<rparr>,
      api_questions = None\<rparr>"

text \<open>
  Topic \<open>A\<close> with the sub-topics \<open>x\<close> and \<open>y\<close>, topic \<open>B\<close> with the sub-topic
  \<open>z\<close>, and one question in each sub-topic.
\<close>

definition itemAx :: question where
  "itemAx =
     \<lparr>q_id = str ''q1'', title = str ''In x'', topic = Some (str ''A''),
      subTopic = Value (str ''x''), resource = None, questionId = exampleRef\<rparr>"

definition itemAy :: question where
  "itemAy =
     \<lparr>q_id = str ''q2'', title = str ''In y'', topic = Some (str ''A''),
      subTopic = Value (str ''y''), resource = None, questionId = exampleRef\<rparr>"

definition itemBz :: question where
  "itemBz =
     \<lparr>q_id = str ''q3'', title = str ''In z'', topic = Some (str ''B''),
      subTopic = Value (str ''z''), resource = None, questionId = exampleRef\<rparr>"

definition subTopicState :: questionState where
  "subTopicState =
     \<lparr>config =
        \<lparr>topicOrder = [str ''A'', str ''B''],
         subTopicOrder =
           \<lparr>own = [(str ''A'', [Some (str ''x''), Some (str ''y'')]),
                   (str ''B'', [Some (str ''z'')])],
            proto = None\<rparr>,
         questionOrder = [str ''q1'', str ''q2'', str ''q3'']\<rparr>,
      questions = [itemAx, itemAy, itemBz], loading = False, error = None\<rparr>"

section \<open>Properties of the library functions\<close>

lemma indexOf_ge: "- 1 \<le> indexOf xs a"
  by (induction xs) (auto simp: Let_def)

lemma indexOf_found: "indexOf xs a \<noteq> -1 \<longleftrightarrow> a \<in> set xs"
proof (induction xs)
  case Nil
  then show ?case by simp
next
  case (Cons y ys)
  have "indexOf ys a + 1 \<noteq> - 1"
    using indexOf_ge[of ys a] by arith
  with Cons show ?case by (auto simp: Let_def)
qed

lemma indexOf_nat: "a \<in> set xs \<Longrightarrow> \<exists>i<length xs. indexOf xs a = int i"
proof (induction xs)
  case Nil
  then show ?case by simp
next
  case (Cons y ys)
  show ?case
  proof (cases "y = a")
    case True
    then show ?thesis by simp
  next
    case False
    with Cons.prems have "a \<in> set ys" by simp
    then obtain i where "i < length ys" "indexOf ys a = int i"
      using Cons.IH by blast
    with False have "indexOf (y # ys) a = int (Suc i)" by (simp add: Let_def)
    with \<open>i < length ys\<close> show ?thesis by auto
  qed
qed

lemma indexOf_nth:
  "indexOf xs a = int i \<Longrightarrow> i < length xs \<and> xs ! i = a"
proof (induction xs arbitrary: i)
  case Nil
  then show ?case by simp
next
  case (Cons y ys)
  show ?case
  proof (cases "y = a")
    case True
    with Cons.prems show ?thesis by simp
  next
    case False
    with Cons.prems have ne: "indexOf ys a \<noteq> -1" and eq: "indexOf ys a + 1 = int i"
      by (auto simp: Let_def split: if_splits)
    from eq indexOf_ge[of ys a] ne obtain k where k: "i = Suc k" "indexOf ys a = int k"
      by (cases i) auto
    with Cons.IH[of k] show ?thesis by simp
  qed
qed

text \<open>
  When the old index is inside the array, the three lines remove the element at the old
  index and put it back at the new index of the shortened array: a move, not a swap.
\<close>

lemma spliceMove_nat:
  assumes "i < length xs"
  shows "spliceMove xs (int i) (int j) =
           Some (take (min j (length xs - 1)) (take i xs @ drop (Suc i) xs) @ [xs ! i]
                 @ drop (min j (length xs - 1)) (take i xs @ drop (Suc i) xs))"
proof -
  define rest where "rest = take i xs @ drop (Suc i) xs"
  have rm: "take (Suc 0) (drop i xs) = [xs ! i]"
    using assms by (simp add: take_Suc_conv_app_nth Cons_nth_drop_Suc[symmetric])
  have len: "length rest = length xs - 1"
    using assms by (simp add: rest_def)
  have s1: "splice xs (int i) 1 [] = ([xs ! i], rest)"
    using assms by (simp add: splice_def Let_def rm rest_def nat_add_distrib)
  have s2: "snd (splice rest (int j) 0 [xs ! i]) =
        take (min j (length xs - 1)) rest @ [xs ! i] @ drop (min j (length xs - 1)) rest"
    by (simp add: splice_def Let_def len min_def)
  show ?thesis
    unfolding spliceMove_def s1 using s2 by (simp add: rest_def)
qed

lemma spliceMove_listMove:
  assumes "a \<in> set xs" "b \<in> set xs"
  shows "spliceMove xs (indexOf xs a) (indexOf xs b)
           = Some (listMove xs (nat (indexOf xs a)) (nat (indexOf xs b)))"
proof -
  obtain i where i: "i < length xs" "indexOf xs a = int i"
    using indexOf_nat[OF assms(1)] by blast
  obtain j where j: "j < length xs" "indexOf xs b = int j"
    using indexOf_nat[OF assms(2)] by blast
  have m: "min j (length xs - 1) = j" using j(1) by simp
  have rm: "take 1 (drop i xs) = [xs ! i]"
    using i(1) by (simp add: take_Suc_conv_app_nth Cons_nth_drop_Suc[symmetric])
  show ?thesis
    unfolding i(2) j(2) spliceMove_nat[OF i(1)] m listMove_def by (simp only: nat_int rm)
qed

lemma insert_at_distinct:
  "distinct (take k ys @ [r] @ drop k ys) \<longleftrightarrow> distinct ys \<and> r \<notin> set ys"
proof -
  have a: "distinct (take k ys @ drop k ys) \<and> r \<notin> set (take k ys @ drop k ys)
       \<longleftrightarrow> distinct ys \<and> r \<notin> set ys"
    by (simp only: append_take_drop_id)
  have b: "distinct (take k ys @ [r] @ drop k ys) \<longleftrightarrow>
    distinct (take k ys @ drop k ys) \<and> r \<notin> set (take k ys @ drop k ys)"
    by (simp only: distinct_append distinct.simps set_append set_simps Un_iff) blast
  show ?thesis by (rule trans[OF b a])
qed

lemma remove_nth_distinct:
  assumes "i < length xs" "distinct xs"
  shows "distinct (take i xs @ drop (Suc i) xs) \<and> xs ! i \<notin> set (take i xs @ drop (Suc i) xs)"
proof -
  have "xs = take i xs @ xs ! i # drop (Suc i) xs"
    using assms(1) by (rule id_take_nth_drop)
  then have "distinct (take i xs @ xs ! i # drop (Suc i) xs)"
    using assms(2) by simp
  then show ?thesis by auto
qed

text \<open>
  Under the handler's guard (both elements found) the three lines always produce an
  array, and a duplicate-free array stays duplicate-free.
\<close>

lemma spliceMove_indexOf:
  assumes "a \<in> set xs" "b \<in> set xs"
  shows "\<exists>ys. spliceMove xs (indexOf xs a) (indexOf xs b) = Some ys
           \<and> (distinct xs \<longrightarrow> distinct ys)"
proof -
  obtain i where i: "i < length xs" "indexOf xs a = int i"
    using indexOf_nat[OF assms(1)] by blast
  obtain j where j: "indexOf xs b = int j"
    using indexOf_nat[OF assms(2)] by blast
  have "distinct xs \<longrightarrow>
        distinct (take (min j (length xs - 1)) (take i xs @ drop (Suc i) xs) @ [xs ! i]
                 @ drop (min j (length xs - 1)) (take i xs @ drop (Suc i) xs))"
    using remove_nth_distinct[OF i(1)] by (simp only: insert_at_distinct) simp
  then show ?thesis
    by (simp add: i(2) j spliceMove_nat[OF i(1)] del: distinct_append)
qed

subsection \<open>Dictionaries\<close>

lemma map_of_insort_key:
  "map_of (insort_key (\<lambda>e. g (fst e)) x xs) = map_of (x # xs)"
proof (induction xs)
  case Nil
  then show ?case by simp
next
  case (Cons y ys)
  show ?case
  proof (cases "g (fst x) \<le> g (fst y)")
    case True
    then show ?thesis by simp
  next
    case False
    then have ne: "fst y \<noteq> fst x" by auto
    have "map_of (insort_key (\<lambda>e. g (fst e)) x (y # ys)) = map_of (y # x # ys)"
      using False Cons.IH by (cases y) (simp add: fun_eq_iff)
    also have "\<dots> = map_of (x # y # ys)"
      using ne by (cases x; cases y) (auto simp: fun_eq_iff)
    finally show ?thesis .
  qed
qed

lemma map_of_sort_key: "map_of (sort_key (\<lambda>e. g (fst e)) xs) = map_of xs"
proof (induction xs)
  case Nil
  then show ?case by simp
next
  case (Cons x xs)
  have "map_of (sort_key (\<lambda>e. g (fst e)) (x # xs))
          = map_of (x # sort_key (\<lambda>e. g (fst e)) xs)"
    by (simp add: map_of_insort_key del: map_of.simps)
  also have "\<dots> = map_of (x # xs)"
    using Cons.IH by (cases x) simp
  finally show ?case .
qed

lemma map_of_filter_fst:
  "map_of (filter (\<lambda>e. P (fst e)) xs) k = (if P k then map_of xs k else None)"
  by (induction xs) auto

text \<open>
  Enumeration order does not change what an own key holds.
\<close>

lemma map_of_entries: "map_of (entries ps) k = map_of ps k"
proof -
  have a: "map_of (filter (\<lambda>e. isArrayIndex (fst e)) ps) k
             = (if isArrayIndex k then map_of ps k else None)"
    by (rule map_of_filter_fst)
  have b: "map_of (filter (\<lambda>e. \<not> isArrayIndex (fst e)) ps) k
             = (if \<not> isArrayIndex k then map_of ps k else None)"
    by (rule map_of_filter_fst[of "\<lambda>k. \<not> isArrayIndex k"])
  show ?thesis
    by (simp add: entries_def map_add_def map_of_sort_key a b split: option.split)
qed

lemma own_spreadDict: "map_of (own (spreadDict d)) k = map_of (own d) k"
  by (simp add: spreadDict_def ownEntries_def map_of_entries)

lemma own_defineKey:
  "map_of (own (defineKey d k v)) k' = (if k' = k then Some v else map_of (own d) k')"
  by (simp add: defineKey_def update_conv')

lemma own_deleteKey:
  "map_of (own (deleteKey d k)) k' = (if k' = k then None else map_of (own d) k')"
  by (simp add: deleteKey_def delete_conv')

lemma proto_simps:
  "proto (spreadDict d) = None" "proto (defineKey d k v) = proto d"
  "proto (deleteKey d k) = proto d"
  by (simp_all add: spreadDict_def defineKey_def deleteKey_def)

text \<open>
  \<open>dict[k] || []\<close> on a dictionary whose prototype is \<open>Object.prototype\<close>: the
  own array; the empty array when the name is found nowhere; an inherited object when
  the name is one of \<open>Object.prototype\<close>'s and not an own key.
\<close>

lemma orEmpty_getList_standard:
  "proto d = None \<Longrightarrow>
   orEmpty (getList arrayNames d k)
     = (case map_of (own d) k of
          Some xs \<Rightarrow> LArray xs
        | None \<Rightarrow> if k \<in> set objectPrototypeNames then LObject else LArray [])"
  by (simp add: getList_def orEmpty_def split: option.splits)

subsection \<open>Identifiers\<close>

lemma parseId_topic: "parseId (str ''topic:'' @ n) = Some (PTopic n)"
  by (simp add: parseId_def startsWith_def substring_def str_def)

lemma parseId_question: "parseId (str ''question:'' @ n) = Some (PQuestion n)"
  by (simp add: parseId_def startsWith_def substring_def str_def)

lemma drag_kinds:
  "idType a \<noteq> idType b \<Longrightarrow> dragSubTopic arrayNames s a b (dragTopic s a b s) = Inr s
     \<and> dragQuestion s a b s = s"
  by (cases a; cases b)
     (auto simp: idType_def dragQuestion_def dragSubTopic_def dragTopic_def split: option.splits)

section \<open>The model on inherited names and Unicode white space\<close>

text \<open>
  A no-break space separates a part from its base as a space does, and \<open>trim\<close>
  removes it. A base topic named like a property of \<open>Object.prototype\<close> makes the
  first pass throw. A standalone topic \<open>__proto__\<close> replaces the prototype of the
  groups and creates no group. A question whose topic is such a name and has no mapping
  loses its topic and sub-topic. Renaming a topic to \<open>__proto__\<close> makes its
  sub-topic list the prototype of the new dictionary.
\<close>

lemma partMatch_no_break_space:
  "partMatch (str ''DP'' @ [160] @ str ''Part-I'') = Some (str ''DP'')
   \<and> trim ([160] @ str ''DP'' @ [8195]) = str ''DP''"
  by code_simp

lemma ingestion_inherited_base:
  "transformTopics arrayNames [str ''constructor Part-I'', str ''constructor Part-II'']
     = Inl TypeError"
  by code_simp

lemma ingestion_proto_topic:
  "transformTopics arrayNames [str ''__proto__'', str ''Arrays'']
     = Inr ([str ''Arrays''], emptyDict,
            \<lparr>own = [(str ''Arrays'', str ''Arrays'', Null)], proto = None\<rparr>)"
  by code_simp

lemma transformQuestion_inherited:
  "transformQuestion \<lparr>own = [(str ''Arrays'', str ''Arrays'', Null)], proto = None\<rparr>
     (itemG\<lparr>topic := Some (str ''constructor'')\<rparr>)
   = itemG\<lparr>topic := None, subTopic := Undefined\<rparr>"
  by code_simp

lemma editTopic_to_proto:
  "subTopicOrder (config (editTopic subTopicState (str ''A'') (str ''__proto__'')))
     = \<lparr>own = [(str ''B'', [Some (str ''z'')])],
        proto = Some [Some (str ''x''), Some (str ''y'')]\<rparr>"
  by code_simp

lemma addSubTopic_inherited:
  "addSubTopic standardArrayNames initialState (str ''valueOf'') (str ''x'') = Inl TypeError"
  by code_simp

section \<open>Drag reconciliation\<close>

text \<open>
  A topic dragged onto another topic, both in the topic order: the dragged name is taken
  out of the order and put back at the index the other name had.
\<close>

lemma topic_drag_general:
  assumes "a \<noteq> []" "b \<noteq> []" "a \<noteq> b"
    and "a \<in> set (topicOrder (config s))" "b \<in> set (topicOrder (config s))"
  shows "handleDragEnd arrayNames s (str ''topic:'' @ a) (Some (str ''topic:'' @ b))
     = Inr (reorderTopics s
         (listMove (topicOrder (config s)) (nat (indexOf (topicOrder (config s)) a))
            (nat (indexOf (topicOrder (config s)) b))))"
  using assms
  by (simp add: handleDragEnd_def parseId_topic dragTopic_def dragSubTopic_def
      dragQuestion_def Let_def indexOf_found spliceMove_listMove)

text \<open>
  C7. A topic dropped onto a topic is moved, not swapped: with the topic order
  \<open>["A", "B", "C"]\<close>, dragging \<open>topic:A\<close> onto \<open>topic:C\<close> gives
  \<open>["B", "C", "A"]\<close> (a swap would give \<open>["C", "B", "A"]\<close>), and nothing else in
  the state changes.
\<close>

theorem topic_drag_is_list_move:
  "handleDragEnd arrayNames
     (s\<lparr>config := (config s)\<lparr>topicOrder := [str ''A'', str ''B'', str ''C'']\<rparr>\<rparr>)
     (str ''topic:A'') (Some (str ''topic:C''))
   = Inr (s\<lparr>config := (config s)\<lparr>topicOrder := [str ''B'', str ''C'', str ''A'']\<rparr>\<rparr>)"
  by (simp add: handleDragEnd_def parseId_def startsWith_def substring_def dragTopic_def
        dragSubTopic_def dragQuestion_def spliceMove_def splice_def reorderTopics_def Let_def
        str_def)

theorem topic_drag_is_list_move_witness:
  "handleDragEnd standardArrayNames
      (twoItemState\<lparr>config := (config twoItemState)\<lparr>topicOrder :=
         [str ''A'', str ''B'', str ''C'']\<rparr>\<rparr>)
      (str ''topic:A'') (Some (str ''topic:C''))
    = Inr (twoItemState\<lparr>config := (config twoItemState)\<lparr>topicOrder :=
         [str ''B'', str ''C'', str ''A'']\<rparr>\<rparr>)"
  using topic_drag_is_list_move [of standardArrayNames twoItemState] by simp

text \<open>
  C1, as the code has it. A question \<open>X\<close> dragged onto a question \<open>Y\<close> of another
  container: every question with the id of \<open>X\<close> gets the topic and sub-topic of
  \<open>Y\<close> and every other question stays as it is; when both ids are in the question
  order, the id of \<open>X\<close> is taken out and put back at the index the id of \<open>Y\<close>
  had, and otherwise the question order stays as it is; nothing else changes. With the
  order \<open>[X, Y]\<close> the result is \<open>[Y, X]\<close>.
\<close>

theorem cross_container_move:
  assumes "x \<noteq> []" "y \<noteq> []" "x \<noteq> y"
    and "find (\<lambda>q. q_id q = x) (questions s) = Some X"
    and "find (\<lambda>q. q_id q = y) (questions s) = Some Y"
    and "topic X \<noteq> topic Y \<or> subTopic X \<noteq> subTopic Y"
  shows "handleDragEnd arrayNames s (str ''question:'' @ x) (Some (str ''question:'' @ y))
     = Inr (s\<lparr>questions :=
               map (\<lambda>q. if q_id q = x then q\<lparr>topic := topic Y, subTopic := subTopic Y\<rparr> else q)
                 (questions s),
             config := (config s)\<lparr>questionOrder :=
               (if x \<in> set (questionOrder (config s)) \<and> y \<in> set (questionOrder (config s))
                then listMove (questionOrder (config s))
                       (nat (indexOf (questionOrder (config s)) x))
                       (nat (indexOf (questionOrder (config s)) y))
                else questionOrder (config s))\<rparr>\<rparr>)"
  using assms
  by (auto simp add: handleDragEnd_def parseId_question dragTopic_def
        dragSubTopic_def dragQuestion_def reorderQuestionPair_def moveQuestionToSubTopic_def
        reorderQuestions_def Let_def indexOf_found spliceMove_listMove)

theorem cross_container_move_witness:
  "handleDragEnd standardArrayNames threeItemState (str ''question:X'') (Some (str ''question:Y''))
     = Inr (threeItemState\<lparr>questions := [itemX\<lparr>topic := Some (str ''C2'')\<rparr>, itemZ, itemY],
         config := (config threeItemState)\<lparr>questionOrder := [str ''Z'', str ''Y'', str ''X'']\<rparr>\<rparr>)"
proof -
  have f: "find (\<lambda>q. q_id q = str ''X'') (questions threeItemState) = Some itemX"
    "find (\<lambda>q. q_id q = str ''Y'') (questions threeItemState) = Some itemY"
    by (simp_all add: threeItemState_def itemX_def itemY_def itemZ_def str_def)
  show ?thesis
    using cross_container_move
      [of "str ''X''" "str ''Y''" threeItemState itemX itemY standardArrayNames, OF _ _ _ f]
    by (simp add: threeItemState_def itemX_def itemY_def itemZ_def str_def listMove_def)
qed

text \<open>
  The question order does not stay \<open>[X, Y]\<close>: in the store with \<open>X\<close> and
  \<open>Y\<close> the drag of \<open>X\<close> onto \<open>Y\<close> leaves \<open>[Y, X]\<close>.
\<close>

theorem cross_container_move_counterexample:
  "questionOrder (config twoItemState) = [str ''X'', str ''Y'']
   \<and> handleDragEnd standardArrayNames twoItemState (str ''question:X'')
        (Some (str ''question:Y'')) \<noteq> Inl TypeError
   \<and> questionOrder (config (stateAfter twoItemState
          (handleDragEnd standardArrayNames twoItemState (str ''question:X'')
             (Some (str ''question:Y'')))))
       = [str ''Y'', str ''X'']
   \<and> questionOrder (config (stateAfter twoItemState
          (handleDragEnd standardArrayNames twoItemState (str ''question:X'')
             (Some (str ''question:Y'')))))
       \<noteq> [str ''X'', str ''Y'']"
  by code_simp

text \<open>
  C8. The drag changes nothing when either identifier does not parse, when the two
  identifiers are equal, when they are of different kinds, or when both are question
  identifiers and one of them is the id of no question.
\<close>

theorem drag_no_op:
  assumes "parseId activeId = None \<or> parseId overId = None \<or> activeId = overId
     \<or> (\<exists>a b. parseId activeId = Some a \<and> parseId overId = Some b \<and> idType a \<noteq> idType b)
     \<or> (\<exists>x y. parseId activeId = Some (PQuestion x) \<and> parseId overId = Some (PQuestion y)
           \<and> (find (\<lambda>q. q_id q = x) (questions s) = None
                \<or> find (\<lambda>q. q_id q = y) (questions s) = None))"
  shows "handleDragEnd arrayNames s activeId (Some overId) = Inr s"
  using assms
proof (elim disjE exE conjE)
  assume "parseId activeId = None"
  then show ?thesis by (simp add: handleDragEnd_def)
next
  assume "parseId overId = None"
  then show ?thesis by (simp add: handleDragEnd_def split: option.splits)
next
  assume "activeId = overId"
  then show ?thesis by (simp add: handleDragEnd_def)
next
  fix a b
  assume "parseId activeId = Some a" "parseId overId = Some b" "idType a \<noteq> idType b"
  then show ?thesis by (simp add: handleDragEnd_def drag_kinds)
next
  fix x y
  assume "parseId activeId = Some (PQuestion x)" "parseId overId = Some (PQuestion y)"
    "find (\<lambda>q. q_id q = x) (questions s) = None"
  then show ?thesis
    by (simp add: handleDragEnd_def dragQuestion_def dragSubTopic_def dragTopic_def)
next
  fix x y
  assume "parseId activeId = Some (PQuestion x)" "parseId overId = Some (PQuestion y)"
    "find (\<lambda>q. q_id q = y) (questions s) = None"
  then show ?thesis
    by (simp add: handleDragEnd_def dragQuestion_def dragSubTopic_def dragTopic_def
        split: option.splits)
qed

theorem drag_no_op_witness:
  "handleDragEnd standardArrayNames twoItemState (str ''question:X'') (Some (str ''topic:C1''))
      = Inr twoItemState
   \<and> handleDragEnd standardArrayNames twoItemState (str ''item-X'') (Some (str ''question:Y''))
      = Inr twoItemState
   \<and> handleDragEnd standardArrayNames twoItemState (str ''question:X'') (Some (str ''question:Z''))
      = Inr twoItemState
   \<and> handleDragEnd standardArrayNames twoItemState (str ''question:X'') (Some (str ''question:X''))
      = Inr twoItemState"
proof -
  have p: "parseId (str ''question:X'') = Some (PQuestion (str ''X''))"
    "parseId (str ''question:Y'') = Some (PQuestion (str ''Y''))"
    "parseId (str ''question:Z'') = Some (PQuestion (str ''Z''))"
    "parseId (str ''topic:C1'') = Some (PTopic (str ''C1''))"
    "parseId (str ''item-X'') = None"
    by (simp_all add: parseId_def startsWith_def substring_def str_def)
  have f: "find (\<lambda>q. q_id q = str ''Z'') (questions twoItemState) = None"
    by (simp add: twoItemState_def itemX_def itemY_def str_def)
  show ?thesis
    using drag_no_op [of "str ''question:X''" "str ''topic:C1''" twoItemState standardArrayNames]
      drag_no_op [of "str ''item-X''" "str ''question:Y''" twoItemState standardArrayNames]
      drag_no_op [of "str ''question:X''" "str ''question:Z''" twoItemState standardArrayNames]
      drag_no_op [of "str ''question:X''" "str ''question:X''" twoItemState standardArrayNames]
    by (simp add: p f idType_def)
qed

section \<open>Store actions\<close>

lemma filter_id_no_match:
  "find (\<lambda>q. q_id q = i) qs = None \<Longrightarrow> filter (\<lambda>q. q_id q \<noteq> i) qs = qs"
  by (induction qs) (auto split: if_splits)

lemma list_ex_id: "list_ex (\<lambda>q. q_id q = i) qs \<longleftrightarrow> i \<in> q_id ` set qs"
  by (auto simp: list_ex_iff)

text \<open>
  C9, as the code has it. For an id that is the id of no question, \<open>deleteQuestion\<close>
  leaves the questions, the topic order and the sub-topic order as they are and removes
  every occurrence of the id from the question order; the state is unchanged exactly
  when the id does not occur in the question order.
\<close>

theorem deleteQuestion_unknown_id:
  assumes "find (\<lambda>q. q_id q = i) (questions s) = None"
  shows "questions (deleteQuestion s i) = questions s
     \<and> topicOrder (config (deleteQuestion s i)) = topicOrder (config s)
     \<and> subTopicOrder (config (deleteQuestion s i)) = subTopicOrder (config s)
     \<and> questionOrder (config (deleteQuestion s i))
          = filter (\<lambda>j. j \<noteq> i) (questionOrder (config s))
     \<and> loading (deleteQuestion s i) = loading s
     \<and> error (deleteQuestion s i) = error s
     \<and> (deleteQuestion s i = s \<longleftrightarrow> i \<notin> set (questionOrder (config s)))"
proof -
  have q: "filter (\<lambda>q. q_id q \<noteq> i) (questions s) = questions s"
    using assms by (rule filter_id_no_match)
  have eq: "deleteQuestion s i
      = s\<lparr>config := (config s)\<lparr>questionOrder :=
            filter (\<lambda>j. j \<noteq> i) (questionOrder (config s))\<rparr>\<rparr>"
    by (simp add: deleteQuestion_def Let_def q)
  have "deleteQuestion s i = s
      \<longleftrightarrow> filter (\<lambda>j. j \<noteq> i) (questionOrder (config s)) = questionOrder (config s)"
  proof
    assume "deleteQuestion s i = s"
    then have "questionOrder (config (deleteQuestion s i)) = questionOrder (config s)"
      by simp
    then show "filter (\<lambda>j. j \<noteq> i) (questionOrder (config s)) = questionOrder (config s)"
      by (simp add: eq)
  next
    assume "filter (\<lambda>j. j \<noteq> i) (questionOrder (config s)) = questionOrder (config s)"
    then show "deleteQuestion s i = s" by (simp add: eq)
  qed
  moreover have "filter (\<lambda>j. j \<noteq> i) (questionOrder (config s)) = questionOrder (config s)
       \<longleftrightarrow> i \<notin> set (questionOrder (config s))"
    by (auto simp: filter_id_conv)
  ultimately show ?thesis by (simp add: eq)
qed

theorem deleteQuestion_unknown_id_witness:
  "deleteQuestion twoItemState (str ''nobody'') = twoItemState
   \<and> questions (deleteQuestion twoItemState (str ''nobody'')) = [itemX, itemY]
   \<and> questionOrder (config (deleteQuestion twoItemState (str ''nobody''))) = [str ''X'', str ''Y'']"
proof -
  have f: "find (\<lambda>q. q_id q = str ''nobody'') (questions twoItemState) = None"
    by (simp add: twoItemState_def itemX_def itemY_def str_def)
  have n: "str ''nobody'' \<notin> set (questionOrder (config twoItemState))"
    by (simp add: twoItemState_def str_def)
  show ?thesis
    using deleteQuestion_unknown_id [OF f] n by (simp add: twoItemState_def)
qed

text \<open>
  The id \<open>ghost\<close> is the id of no question of \<open>danglingState\<close>, and deleting it
  changes the state: it is removed from the question order.
\<close>

theorem deleteQuestion_unknown_id_counterexample:
  "questions danglingState = []
   \<and> questionOrder (config danglingState) = [str ''ghost'']
   \<and> questionOrder (config (deleteQuestion danglingState (str ''ghost''))) = []
   \<and> deleteQuestion danglingState (str ''ghost'') \<noteq> danglingState"
proof -
  have "questionOrder (config (deleteQuestion danglingState (str ''ghost''))) = []"
    by (simp add: danglingState_def deleteQuestion_def reorderQuestions_def initialState_def)
  moreover have "questionOrder (config danglingState) = [str ''ghost'']"
    by (simp add: danglingState_def reorderQuestions_def initialState_def)
  moreover have "questions danglingState = []"
    by (simp add: danglingState_def reorderQuestions_def initialState_def)
  ultimately show ?thesis by (auto simp: str_def)
qed

text \<open>
  C3, as the code has it. \<open>deleteTopic(c)\<close> removes \<open>c\<close> from the topic order,
  drops the entry of \<open>c\<close> from the sub-topic order and keeps every other entry,
  deletes the questions of topic \<open>c\<close>, and keeps in the question order the ids of the
  questions that are left. Afterwards an id is in the question order exactly when it was
  there before and is the id of a question that is left; when every question's id was in
  the question order before, an id is in the question order exactly when it is the id of
  a question that is left.
\<close>

theorem deleteTopic_cascade:
  "topicOrder (config (deleteTopic s c)) = filter (\<lambda>t. t \<noteq> c) (topicOrder (config s))
   \<and> c \<notin> set (topicOrder (config (deleteTopic s c)))
   \<and> map_of (own (subTopicOrder (config (deleteTopic s c)))) c = None
   \<and> (\<forall>k. k \<noteq> c \<longrightarrow> map_of (own (subTopicOrder (config (deleteTopic s c)))) k
                          = map_of (own (subTopicOrder (config s))) k)
   \<and> questions (deleteTopic s c) = filter (\<lambda>q. topic q \<noteq> Some c) (questions s)
   \<and> (\<forall>q \<in> set (questions (deleteTopic s c)). topic q \<noteq> Some c)
   \<and> questionOrder (config (deleteTopic s c))
        = filter (\<lambda>i. i \<in> q_id ` set (questions (deleteTopic s c))) (questionOrder (config s))
   \<and> (\<forall>i. i \<in> set (questionOrder (config (deleteTopic s c))) \<longleftrightarrow>
            i \<in> set (questionOrder (config s)) \<and> i \<in> q_id ` set (questions (deleteTopic s c)))
   \<and> (q_id ` set (questions s) \<subseteq> set (questionOrder (config s)) \<longrightarrow>
        (\<forall>i. i \<in> set (questionOrder (config (deleteTopic s c))) \<longleftrightarrow>
             i \<in> q_id ` set (questions (deleteTopic s c))))"
proof -
  have qs: "questions (deleteTopic s c) = filter (\<lambda>q. topic q \<noteq> Some c) (questions s)"
    by (simp add: deleteTopic_def Let_def)
  have qo: "questionOrder (config (deleteTopic s c))
        = filter (\<lambda>i. i \<in> q_id ` set (questions (deleteTopic s c))) (questionOrder (config s))"
    unfolding qs by (simp add: deleteTopic_def Let_def list_ex_id)
  have tord: "topicOrder (config (deleteTopic s c))
        = filter (\<lambda>t. t \<noteq> c) (topicOrder (config s))"
    by (simp add: deleteTopic_def Let_def)
  have sub: "map_of (own (subTopicOrder (config (deleteTopic s c)))) k
               = (if k = c then None else map_of (own (subTopicOrder (config s))) k)" for k
    by (simp add: deleteTopic_def Let_def own_deleteKey own_spreadDict)
  have mem: "i \<in> set (questionOrder (config (deleteTopic s c))) \<longleftrightarrow>
            i \<in> set (questionOrder (config s)) \<and> i \<in> q_id ` set (questions (deleteTopic s c))"
    for i
    by (subst qo) auto
  have inv: "\<forall>i. i \<in> set (questionOrder (config (deleteTopic s c))) \<longleftrightarrow>
             i \<in> q_id ` set (questions (deleteTopic s c))"
    if "q_id ` set (questions s) \<subseteq> set (questionOrder (config s))"
    using that unfolding mem by (auto simp: qs)
  show ?thesis
    apply (intro conjI)
    subgoal by (rule tord)
    subgoal by (simp add: tord)
    subgoal by (simp add: sub)
    subgoal by (simp add: sub)
    subgoal by (rule qs)
    subgoal by (simp add: qs)
    subgoal by (rule qo)
    subgoal using mem by blast
    subgoal using inv by blast
    done
qed

theorem deleteTopic_cascade_witness:
  "topicOrder (config (deleteTopic twoItemState (str ''C1''))) = [str ''C2'']
   \<and> questions (deleteTopic twoItemState (str ''C1'')) = [itemY]
   \<and> questionOrder (config (deleteTopic twoItemState (str ''C1''))) = [str ''Y'']"
  using deleteTopic_cascade [of twoItemState "str ''C1''"]
  by (simp add: twoItemState_def itemX_def itemY_def str_def)

text \<open>
  After the ingestion of a response without a question order and the deletion of the
  topic \<open>Arrays\<close>, the question \<open>g1\<close> of topic \<open>Graphs\<close> is still in the
  collection and its id is not in the question order.
\<close>

theorem deleteTopic_cascade_counterexample:
  "itemG \<in> set (questions (deleteTopic ingestedState (str ''Arrays'')))
   \<and> q_id itemG \<notin> set (questionOrder (config (deleteTopic ingestedState (str ''Arrays''))))"
  by code_simp

text \<open>
  C6, as the code has it. For two different topics whose entries
  \<open>subTopicOrder[from] || []\<close> and \<open>subTopicOrder[to] || []\<close> are arrays,
  \<open>moveSubTopicToTopic\<close> removes the name from the entry of the source topic,
  appends it at the end of the entry of the destination topic, leaves every other entry
  as it is, and sets the topic of every question of that sub-topic of the source topic to
  the destination; no question changes its sub-topic, and the topic order and the
  question order stay as they are.
\<close>

theorem moveSubTopicToTopic_effect:
  assumes "fromTopic \<noteq> toTopic"
    and "orEmpty (getList arrayNames (subTopicOrder (config s)) fromTopic) = LArray src"
    and "orEmpty (getList arrayNames (subTopicOrder (config s)) toTopic) = LArray dst"
  shows "\<exists>s'. moveSubTopicToTopic arrayNames s n fromTopic toTopic = Inr s'
     \<and> map_of (own (subTopicOrder (config s'))) fromTopic
           = Some (filter (\<lambda>x. x \<noteq> Some n) src)
     \<and> map_of (own (subTopicOrder (config s'))) toTopic = Some (dst @ [Some n])
     \<and> (\<forall>k. k \<noteq> fromTopic \<and> k \<noteq> toTopic \<longrightarrow>
           map_of (own (subTopicOrder (config s'))) k
             = map_of (own (subTopicOrder (config s))) k)
     \<and> questions s'
          = map (\<lambda>q. if topic q = Some fromTopic \<and> subTopic q = Value n
                    then q\<lparr>topic := Some toTopic\<rparr> else q) (questions s)
     \<and> length (questions s') = length (questions s)
     \<and> (\<forall>i < length (questions s).
           questions s' ! i
             = (if topic (questions s ! i) = Some fromTopic
                   \<and> subTopic (questions s ! i) = Value n
                then (questions s ! i)\<lparr>topic := Some toTopic\<rparr> else questions s ! i)
           \<and> subTopic (questions s' ! i) = subTopic (questions s ! i))
     \<and> topicOrder (config s') = topicOrder (config s)
     \<and> questionOrder (config s') = questionOrder (config s)"
  using assms
  by (simp add: moveSubTopicToTopic_def Let_def valArray_def valSpread_def
        own_defineKey own_spreadDict)

theorem moveSubTopicToTopic_effect_witness:
  "moveSubTopicToTopic standardArrayNames subTopicState (str ''x'') (str ''A'') (str ''B'')
     \<noteq> Inl TypeError
   \<and> map_of (own (subTopicOrder (config (stateAfter subTopicState
          (moveSubTopicToTopic standardArrayNames subTopicState (str ''x'') (str ''A'')
             (str ''B'')))))) (str ''A'')
       = Some [Some (str ''y'')]
   \<and> map_of (own (subTopicOrder (config (stateAfter subTopicState
          (moveSubTopicToTopic standardArrayNames subTopicState (str ''x'') (str ''A'')
             (str ''B'')))))) (str ''B'')
       = Some [Some (str ''z''), Some (str ''x'')]
   \<and> questions (stateAfter subTopicState
          (moveSubTopicToTopic standardArrayNames subTopicState (str ''x'') (str ''A'')
             (str ''B'')))
       = [itemAx\<lparr>topic := Some (str ''B'')\<rparr>, itemAy, itemBz]
   \<and> map subTopic (questions (stateAfter subTopicState
          (moveSubTopicToTopic standardArrayNames subTopicState (str ''x'') (str ''A'')
             (str ''B''))))
       = [Value (str ''x''), Value (str ''y''), Value (str ''z'')]"
proof -
  have a: "orEmpty (getList standardArrayNames (subTopicOrder (config subTopicState)) (str ''A''))
             = LArray [Some (str ''x''), Some (str ''y'')]"
    by (simp add: subTopicState_def getList_def orEmpty_def str_def)
  have b: "orEmpty (getList standardArrayNames (subTopicOrder (config subTopicState)) (str ''B''))
             = LArray [Some (str ''z'')]"
    by (simp add: subTopicState_def getList_def orEmpty_def str_def)
  have ne: "str ''A'' \<noteq> str ''B''" by (simp add: str_def)
  have q: "questions subTopicState = [itemAx, itemAy, itemBz]"
    by (simp add: subTopicState_def)
  obtain s' where s': "moveSubTopicToTopic standardArrayNames subTopicState (str ''x'')
         (str ''A'') (str ''B'') = Inr s'"
    and A: "map_of (own (subTopicOrder (config s'))) (str ''A'')
           = Some (filter (\<lambda>x. x \<noteq> Some (str ''x'')) [Some (str ''x''), Some (str ''y'')])"
    and B: "map_of (own (subTopicOrder (config s'))) (str ''B'')
           = Some ([Some (str ''z'')] @ [Some (str ''x'')])"
    and qs: "questions s'
          = map (\<lambda>q. if topic q = Some (str ''A'') \<and> subTopic q = Value (str ''x'')
                    then q\<lparr>topic := Some (str ''B'')\<rparr> else q) (questions subTopicState)"
    using moveSubTopicToTopic_effect [OF ne a b, of "str ''x''"] by blast
  have after: "stateAfter subTopicState (Inr s') = s'"
    by (simp add: stateAfter_def)
  show ?thesis
    unfolding s' after using A B qs
    by (simp add: q itemAx_def itemAy_def itemBz_def str_def)
qed

text \<open>
  With the same topic as source and destination the name is not removed: the entry
  \<open>["x", "y"]\<close> of topic \<open>A\<close> becomes \<open>["x", "y", "x"]\<close>.
\<close>

theorem moveSubTopicToTopic_effect_counterexample:
  "map_of (own (subTopicOrder (config subTopicState))) (str ''A'')
      = Some [Some (str ''x''), Some (str ''y'')]
   \<and> moveSubTopicToTopic standardArrayNames subTopicState (str ''x'') (str ''A'') (str ''A'')
        \<noteq> Inl TypeError
   \<and> map_of (own (subTopicOrder (config (stateAfter subTopicState
          (moveSubTopicToTopic standardArrayNames subTopicState (str ''x'') (str ''A'')
             (str ''A'')))))) (str ''A'')
       = Some [Some (str ''x''), Some (str ''y''), Some (str ''x'')]"
  by code_simp

text \<open>
  When \<open>subTopicOrder[c] || []\<close> is an array, \<open>deleteSubTopic(c, st)\<close> stores
  that array without \<open>st\<close> as the entry of \<open>c\<close>.
\<close>

lemma deleteSubTopic_stores_entry:
  assumes "orEmpty (getList arrayNames (subTopicOrder (config s)) c) = LArray xs"
  shows "\<exists>s'. deleteSubTopic arrayNames s c st = Inr s'
     \<and> map_of (own (subTopicOrder (config s'))) c = Some (filter (\<lambda>x. x \<noteq> Some st) xs)
     \<and> Some st \<notin> set (filter (\<lambda>x. x \<noteq> Some st) xs)"
  using assms
  by (simp add: deleteSubTopic_def Let_def valArray_def own_defineKey)

text \<open>
  C10, where the code fails. When \<open>c\<close> is the name of a property of
  \<open>Object.prototype\<close> (\<open>constructor\<close>, \<open>toString\<close>, \<open>valueOf\<close>, ...) and the
  sub-topic order has no own entry for it, \<open>subTopicOrder[c] || []\<close> is the inherited
  value, \<open>filter\<close> is not a function of it, and \<open>deleteSubTopic(c, st)\<close> throws:
  the store is as it was, and there is still no entry for \<open>c\<close>.
\<close>

theorem deleteSubTopic_inherited_name:
  assumes "proto (subTopicOrder (config s)) = None"
    and "map_of (own (subTopicOrder (config s))) c = None"
    and "c \<in> set objectPrototypeNames"
  shows "deleteSubTopic arrayNames s c st = Inl TypeError
     \<and> stateAfter s (deleteSubTopic arrayNames s c st) = s
     \<and> map_of (own (subTopicOrder (config (stateAfter s (deleteSubTopic arrayNames s c st))))) c
          = None"
  using assms
  by (simp add: deleteSubTopic_def Let_def valArray_def orEmpty_getList_standard stateAfter_def)

theorem deleteSubTopic_inherited_name_witness:
  "deleteSubTopic standardArrayNames initialState (str ''constructor'') (str ''x'') = Inl TypeError
   \<and> stateAfter initialState
        (deleteSubTopic standardArrayNames initialState (str ''constructor'') (str ''x''))
      = initialState
   \<and> map_of (own (subTopicOrder (config initialState))) (str ''constructor'') = None"
proof -
  have m: "str ''constructor'' \<in> set objectPrototypeNames"
    by (simp add: objectPrototypeNames_def)
  have p: "proto (subTopicOrder (config initialState)) = None"
    "map_of (own (subTopicOrder (config initialState))) (str ''constructor'') = None"
    by (simp_all add: initialState_def emptyDict_def)
  show ?thesis
    using deleteSubTopic_inherited_name [OF p m, of standardArrayNames "str ''x''"] p
    by (simp add: stateAfter_def)
qed

text \<open>
  The same inherited names make \<open>moveSubTopicToTopic\<close> throw, as source or as
  destination.
\<close>

lemma moveSubTopicToTopic_throws:
  assumes "proto (subTopicOrder (config s)) = None"
    and "(map_of (own (subTopicOrder (config s))) fromTopic = None
            \<and> fromTopic \<in> set objectPrototypeNames)
         \<or> (map_of (own (subTopicOrder (config s))) toTopic = None
            \<and> toTopic \<in> set objectPrototypeNames)"
  shows "moveSubTopicToTopic arrayNames s n fromTopic toTopic = Inl TypeError"
  using assms
  by (auto simp: moveSubTopicToTopic_def Let_def valArray_def valSpread_def
        orEmpty_getList_standard split: option.splits)

section \<open>Ingestion\<close>

lemma transformTopics_example:
  "transformTopics arrayNames
     [str ''Arrays'', str ''DP Part-I'', str ''DP Part-II'', str ''Graphs'']
   = Inr ([str ''Arrays'', str ''DP'', str ''Graphs''],
      \<lparr>own = [(str ''DP'', [Some (str ''DP Part-I''), Some (str ''DP Part-II'')])],
       proto = None\<rparr>,
      \<lparr>own = [(str ''Arrays'', str ''Arrays'', Null),
              (str ''DP Part-I'', str ''DP'', Value (str ''DP Part-I'')),
              (str ''DP Part-II'', str ''DP'', Value (str ''DP Part-II'')),
              (str ''Graphs'', str ''Graphs'', Null)],
       proto = None\<rparr>)"
  by code_simp

text \<open>
  C4. Ingesting a response whose topic list is
  \<open>["Arrays", "DP Part-I", "DP Part-II", "Graphs"]\<close> gives the topic order
  \<open>["Arrays", "DP", "Graphs"]\<close> and a sub-topic order whose only entry is
  \<open>"DP"\<close> with \<open>["DP Part-I", "DP Part-II"]\<close>, whatever the questions, the
  question order of the response and the state before.
\<close>

theorem part_detection:
  "topicOrder (config (fetchSheetData arrayNames s (Fulfilled
      \<lparr>sheet = Some \<lparr>sheet_config = Some
          \<lparr>api_topicOrder =
             Some [str ''Arrays'', str ''DP Part-I'', str ''DP Part-II'', str ''Graphs''],
           api_questionOrder = qo\<rparr>\<rparr>,
       api_questions = Some qs\<rparr>))) = [str ''Arrays'', str ''DP'', str ''Graphs'']
   \<and> subTopicOrder (config (fetchSheetData arrayNames s (Fulfilled
      \<lparr>sheet = Some \<lparr>sheet_config = Some
          \<lparr>api_topicOrder =
             Some [str ''Arrays'', str ''DP Part-I'', str ''DP Part-II'', str ''Graphs''],
           api_questionOrder = qo\<rparr>\<rparr>,
       api_questions = Some qs\<rparr>)))
      = \<lparr>own = [(str ''DP'', [Some (str ''DP Part-I''), Some (str ''DP Part-II'')])],
         proto = None\<rparr>
   \<and> ownKeys (subTopicOrder (config (fetchSheetData arrayNames s (Fulfilled
      \<lparr>sheet = Some \<lparr>sheet_config = Some
          \<lparr>api_topicOrder =
             Some [str ''Arrays'', str ''DP Part-I'', str ''DP Part-II'', str ''Graphs''],
           api_questionOrder = qo\<rparr>\<rparr>,
       api_questions = Some qs\<rparr>)))) = [str ''DP'']"
proof -
  have k: "ownKeys \<lparr>own = [(str ''DP'', [Some (str ''DP Part-I''), Some (str ''DP Part-II'')])],
         proto = None\<rparr> = [str ''DP'']"
    by code_simp
  show ?thesis
    by (simp add: fetchSheetData_def transformTopics_example k)
qed

theorem part_detection_witness:
  "topicOrder (config (fetchSheetData standardArrayNames initialState (Fulfilled
      \<lparr>sheet = Some \<lparr>sheet_config = Some
          \<lparr>api_topicOrder =
             Some [str ''Arrays'', str ''DP Part-I'', str ''DP Part-II'', str ''Graphs''],
           api_questionOrder = None\<rparr>\<rparr>,
       api_questions = Some [itemG]\<rparr>))) = [str ''Arrays'', str ''DP'', str ''Graphs'']
   \<and> subTopicOrder (config (fetchSheetData standardArrayNames initialState (Fulfilled
      \<lparr>sheet = Some \<lparr>sheet_config = Some
          \<lparr>api_topicOrder =
             Some [str ''Arrays'', str ''DP Part-I'', str ''DP Part-II'', str ''Graphs''],
           api_questionOrder = None\<rparr>\<rparr>,
       api_questions = Some [itemG]\<rparr>)))
      = \<lparr>own = [(str ''DP'', [Some (str ''DP Part-I''), Some (str ''DP Part-II'')])],
         proto = None\<rparr>"
  using part_detection [of standardArrayNames initialState None "[itemG]"] by simp

text \<open>
  C5. When the response has no \<open>sheet\<close>, no \<open>config\<close>, no \<open>config.topicOrder\<close>
  or no \<open>questions\<close>, \<open>fetchSheetData\<close> leaves \<open>config\<close> and \<open>questions\<close>
  as they were, sets \<open>loading\<close> to false and sets \<open>error\<close> to a message; with a
  \<open>sheet\<close> the message is the one of the safety check.
\<close>

theorem ingestion_failure:
  assumes "sheet d = None
     \<or> (\<exists>sh. sheet d = Some sh \<and> sheet_config sh = None)
     \<or> (\<exists>sh cfg. sheet d = Some sh \<and> sheet_config sh = Some cfg \<and> api_topicOrder cfg = None)
     \<or> api_questions d = None"
  shows "config (fetchSheetData arrayNames s (Fulfilled d)) = config s
     \<and> questions (fetchSheetData arrayNames s (Fulfilled d)) = questions s
     \<and> loading (fetchSheetData arrayNames s (Fulfilled d)) = False
     \<and> error (fetchSheetData arrayNames s (Fulfilled d)) \<noteq> None
     \<and> (\<exists>msg. fetchSheetData arrayNames s (Fulfilled d) = s\<lparr>error := Some msg, loading := False\<rparr>)
     \<and> (sheet d \<noteq> None \<longrightarrow>
          error (fetchSheetData arrayNames s (Fulfilled d))
            = Some (Message (str ''Invalid data structure from API'')))"
  using assms
  by (auto simp: fetchSheetData_def fetchFailed_def Let_def split: option.splits)

theorem ingestion_failure_witness:
  "config (fetchSheetData standardArrayNames twoItemState (Fulfilled noQuestionsPayload))
      = config twoItemState
   \<and> questions (fetchSheetData standardArrayNames twoItemState (Fulfilled noQuestionsPayload))
      = [itemX, itemY]
   \<and> loading (fetchSheetData standardArrayNames twoItemState (Fulfilled noQuestionsPayload))
      = False
   \<and> error (fetchSheetData standardArrayNames twoItemState (Fulfilled noQuestionsPayload))
        = Some (Message (str ''Invalid data structure from API''))"
proof -
  have h: "api_questions noQuestionsPayload = None" "sheet noQuestionsPayload \<noteq> None"
    by (simp_all add: noQuestionsPayload_def)
  show ?thesis
    using ingestion_failure [of noQuestionsPayload standardArrayNames twoItemState] h
    by (simp add: twoItemState_def)
qed

text \<open>
  The topic order after a successful ingestion has no duplicates.
\<close>

lemma entries_distinct:
  assumes "distinct (map fst ps)"
  shows "distinct (map fst (entries ps))"
proof -
  let ?P = "\<lambda>e::jsstring \<times> 'a. isArrayIndex (fst e)"
  let ?ints = "sort_key (\<lambda>e. digitsValue (fst e)) (filter ?P ps)"
  let ?rest = "filter (\<lambda>e. \<not> ?P e) ps"
  have d: "distinct ps" and inj: "inj_on fst (set ps)"
    using assms by (simp_all add: distinct_map)
  have "distinct (map fst ?ints)"
    using d inj by (auto simp: distinct_map intro: inj_on_subset)
  moreover have "distinct (map fst ?rest)"
    using d inj by (auto simp: distinct_map intro: inj_on_subset)
  moreover have "set (map fst ?ints) \<inter> set (map fst ?rest) = {}"
    by auto
  ultimately show ?thesis
    by (simp only: entries_def map_append distinct_append)
qed

lemma assign_distinct:
  "distinct (map fst (own d)) \<Longrightarrow> distinct (map fst (own (assign d k v)))"
  by (simp add: assign_def distinct_update)

lemma pushToGroup_distinct:
  "distinct (map fst (own g)) \<Longrightarrow> pushToGroup arrayNames g b t = Inr g'
     \<Longrightarrow> distinct (map fst (own g'))"
  by (auto simp: pushToGroup_def Let_def assign_distinct distinct_update
           split: option.splits if_splits lval.splits)

lemma groupTopic_distinct:
  "distinct (map fst (own g)) \<Longrightarrow> groupTopic arrayNames allTopics t g = Inr g'
     \<Longrightarrow> distinct (map fst (own g'))"
  by (auto simp: groupTopic_def Let_def assign_distinct dest: pushToGroup_distinct
           split: option.splits if_splits)

lemma forEachE_groupTopic_distinct:
  "distinct (map fst (own g)) \<Longrightarrow> forEachE (groupTopic arrayNames allTopics) ts g = Inr g'
     \<Longrightarrow> distinct (map fst (own g'))"
proof (induction ts arbitrary: g)
  case Nil
  then show ?case by simp
next
  case (Cons t ts)
  then show ?case
    by (auto split: sum.splits dest: groupTopic_distinct)
qed

lemma fst_transformGroup: "fst (transformGroup g acc) = fst acc @ [fst g]"
  by (cases acc; cases g) (simp add: transformGroup_def)

lemma fst_fold_transformGroup: "fst (fold transformGroup gs acc) = fst acc @ map fst gs"
  by (induction gs arbitrary: acc) (simp_all add: fst_transformGroup)

lemma transformTopics_distinct:
  "transformTopics arrayNames allTopics = Inr (tto, rest) \<Longrightarrow> distinct tto"
proof -
  assume a: "transformTopics arrayNames allTopics = Inr (tto, rest)"
  then obtain g where g: "forEachE (groupTopic arrayNames allTopics) allTopics emptyDict = Inr g"
    and r: "fold transformGroup (ownEntries g) ([], emptyDict, emptyDict) = (tto, rest)"
    by (auto simp: transformTopics_def split: sum.splits)
  have "distinct (map fst (own g))"
    using forEachE_groupTopic_distinct[OF _ g] by (simp add: emptyDict_def)
  then have "distinct (map fst (ownEntries g))"
    by (simp add: ownEntries_def entries_distinct)
  moreover have "tto = map fst (ownEntries g)"
    using fst_fold_transformGroup[of "ownEntries g" "([], emptyDict, emptyDict)"] r by simp
  ultimately show ?thesis by simp
qed

lemma fetchSheetData_distinct:
  assumes "distinct (topicOrder (config s))"
  shows "distinct (topicOrder (config (fetchSheetData arrayNames s r)))"
proof (cases r)
  case (Rejected m)
  with assms show ?thesis by (simp add: fetchSheetData_def fetchFailed_def)
next
  case (Fulfilled d)
  with assms show ?thesis
    by (auto simp: fetchSheetData_def fetchFailed_def Let_def
             dest: transformTopics_distinct split: option.splits sum.splits)
qed

section \<open>The topic order has no duplicates\<close>

lemma rename_distinct:
  assumes "distinct xs"
  shows "distinct (map (\<lambda>t. if t = a then b else t) xs)
           \<longleftrightarrow> \<not> (a \<in> set xs \<and> b \<in> set xs \<and> a \<noteq> b)"
proof -
  have "inj_on (\<lambda>t. if t = a then b else t) (set xs)
           \<longleftrightarrow> \<not> (a \<in> set xs \<and> b \<in> set xs \<and> a \<noteq> b)"
    by (auto simp: inj_on_def split: if_splits)
  with assms show ?thesis by (simp add: distinct_map)
qed

lemma addSubTopic_topicOrder:
  "topicOrder (config (stateAfter s (addSubTopic arrayNames s t st))) = topicOrder (config s)"
  by (auto simp: stateAfter_def addSubTopic_def Let_def split: sum.splits)

lemma editSubTopic_topicOrder:
  "topicOrder (config (stateAfter s (editSubTopic arrayNames s t st st')))
     = topicOrder (config s)"
  by (auto simp: stateAfter_def editSubTopic_def Let_def split: sum.splits)

lemma deleteSubTopic_topicOrder:
  "topicOrder (config (stateAfter s (deleteSubTopic arrayNames s t st)))
     = topicOrder (config s)"
  by (auto simp: stateAfter_def deleteSubTopic_def Let_def split: sum.splits)

lemma moveSubTopicToTopic_topicOrder:
  "moveSubTopicToTopic arrayNames s st t t' = Inr s'
     \<Longrightarrow> topicOrder (config s') = topicOrder (config s)"
  by (auto simp: moveSubTopicToTopic_def Let_def split: sum.splits)

lemma dragSubTopic_topicOrder:
  "dragSubTopic arrayNames s a b cur = Inr cur'
     \<Longrightarrow> topicOrder (config cur') = topicOrder (config cur)"
  by (cases a; cases b)
     (auto simp: dragSubTopic_def reorderSubTopics_def Let_def
           dest: moveSubTopicToTopic_topicOrder split: option.splits sum.splits if_splits)

lemma reorderQuestionPair_topicOrder:
  "topicOrder (config (reorderQuestionPair s x y cur)) = topicOrder (config cur)"
  by (auto simp: reorderQuestionPair_def reorderQuestions_def Let_def split: option.splits)

lemma dragQuestion_topicOrder:
  "topicOrder (config (dragQuestion s a b cur)) = topicOrder (config cur)"
  by (cases a; cases b)
     (auto simp: dragQuestion_def reorderQuestionPair_topicOrder moveQuestionToSubTopic_def
           Let_def split: option.splits)

lemma dragTopic_distinct:
  assumes "distinct (topicOrder (config s))"
  shows "distinct (topicOrder (config (dragTopic s a b s)))"
proof (cases "\<exists>x y. a = PTopic x \<and> b = PTopic y \<and> x \<in> set (topicOrder (config s))
                 \<and> y \<in> set (topicOrder (config s))")
  case True
  then obtain x y where xy: "a = PTopic x" "b = PTopic y"
    "x \<in> set (topicOrder (config s))" "y \<in> set (topicOrder (config s))" by blast
  obtain ys where ys: "spliceMove (topicOrder (config s)) (indexOf (topicOrder (config s)) x)
       (indexOf (topicOrder (config s)) y) = Some ys" "distinct ys"
    using spliceMove_indexOf[OF xy(3,4)] assms by blast
  show ?thesis
    using assms by (simp add: xy(1,2) dragTopic_def Let_def ys reorderTopics_def)
next
  case False
  then have "dragTopic s a b s = s"
    by (cases a; cases b) (auto simp: dragTopic_def Let_def indexOf_found)
  with assms show ?thesis by simp
qed

lemma handleDragEnd_distinct:
  assumes "distinct (topicOrder (config s))"
  shows "distinct (topicOrder (config (stateAfter s (handleDragEnd arrayNames s a over))))"
  using assms dragTopic_distinct[OF assms]
  by (auto simp: stateAfter_def handleDragEnd_def dragQuestion_topicOrder
           dest: dragSubTopic_topicOrder split: option.splits sum.splits)

text \<open>
  C2, as the code has it. From a state whose topic order has no duplicates: after
  \<open>editTopic(old, new)\<close> the topic order has no duplicates exactly when \<open>old\<close> and
  \<open>new\<close> are not two different topics of the order; after
  \<open>reorderTopics(newOrder)\<close> exactly when \<open>newOrder\<close> has none; and after every
  other action of the store (whether it returns or throws), after an ingestion and after
  a drag, it has none.
\<close>

theorem topicOrder_no_duplicates:
  assumes "distinct (topicOrder (config s))"
  shows "distinct (topicOrder (config (addTopic s n)))
   \<and> (distinct (topicOrder (config (editTopic s old new)))
        \<longleftrightarrow> \<not> (old \<in> set (topicOrder (config s)) \<and> new \<in> set (topicOrder (config s))
                 \<and> old \<noteq> new))
   \<and> distinct (topicOrder (config (deleteTopic s n)))
   \<and> (distinct (topicOrder (config (reorderTopics s newOrder))) \<longleftrightarrow> distinct newOrder)
   \<and> distinct (topicOrder (config (stateAfter s (addSubTopic arrayNames s t st))))
   \<and> distinct (topicOrder (config (stateAfter s (editSubTopic arrayNames s t st st'))))
   \<and> distinct (topicOrder (config (stateAfter s (deleteSubTopic arrayNames s t st))))
   \<and> distinct (topicOrder (config (reorderSubTopics s t subOrder)))
   \<and> distinct (topicOrder (config (stateAfter s (moveSubTopicToTopic arrayNames s st t t'))))
   \<and> distinct (topicOrder (config (addQuestion now s pq)))
   \<and> distinct (topicOrder (config (editQuestion s qid pq)))
   \<and> distinct (topicOrder (config (deleteQuestion s qid)))
   \<and> distinct (topicOrder (config (reorderQuestions s qOrder)))
   \<and> distinct (topicOrder (config (moveQuestionToSubTopic s qid tq tsub)))
   \<and> distinct (topicOrder (config (fetchSheetData arrayNames s r)))
   \<and> distinct (topicOrder (config (stateAfter s (handleDragEnd arrayNames s activeId over))))"
proof -
  have e: "distinct (topicOrder (config (editTopic s old new)))
        \<longleftrightarrow> \<not> (old \<in> set (topicOrder (config s)) \<and> new \<in> set (topicOrder (config s))
                 \<and> old \<noteq> new)"
    using rename_distinct[OF assms, of old new] by (simp add: editTopic_def Let_def)
  have m: "topicOrder (config (stateAfter s (moveSubTopicToTopic arrayNames s st t t')))
             = topicOrder (config s)"
    by (auto simp: stateAfter_def dest: moveSubTopicToTopic_topicOrder split: sum.splits)
  show ?thesis
    apply (intro conjI)
    subgoal using assms by (simp add: addTopic_def)
    subgoal by (rule e)
    subgoal using assms by (simp add: deleteTopic_def Let_def)
    subgoal by (simp add: reorderTopics_def)
    subgoal using assms by (simp add: addSubTopic_topicOrder)
    subgoal using assms by (simp add: editSubTopic_topicOrder)
    subgoal using assms by (simp add: deleteSubTopic_topicOrder)
    subgoal using assms by (simp add: reorderSubTopics_def)
    subgoal using assms by (simp add: m)
    subgoal using assms by (simp add: addQuestion_def Let_def)
    subgoal using assms by (simp add: editQuestion_def)
    subgoal using assms by (simp add: deleteQuestion_def Let_def)
    subgoal using assms by (simp add: reorderQuestions_def)
    subgoal using assms by (simp add: moveQuestionToSubTopic_def)
    subgoal using assms by (rule fetchSheetData_distinct)
    subgoal using assms by (rule handleDragEnd_distinct)
    done
qed

theorem topicOrder_no_duplicates_witness:
  "distinct (topicOrder (config twoTopicState))
   \<and> distinct (topicOrder (config (addTopic twoTopicState (str ''A''))))
   \<and> distinct (topicOrder (config (editTopic twoTopicState (str ''A'') (str ''Z''))))
   \<and> distinct (topicOrder (config (deleteTopic twoTopicState (str ''A''))))
   \<and> distinct (topicOrder (config (reorderTopics twoTopicState [str ''B'', str ''A''])))
   \<and> distinct (topicOrder (config (stateAfter twoTopicState
        (handleDragEnd standardArrayNames twoTopicState (str ''topic:A'') (Some (str ''topic:B''))))))"
proof -
  have t: "topicOrder (config twoTopicState) = [str ''A'', str ''B'']"
    by (simp add: twoTopicState_def addTopic_def initialState_def str_def)
  then have d: "distinct (topicOrder (config twoTopicState))"
    by (simp add: str_def)
  show ?thesis
    using topicOrder_no_duplicates [OF d, where n = "str ''A''" and old = "str ''A''" and new = "str ''Z''"
        and newOrder = "[str ''B'', str ''A'']" and activeId = "str ''topic:A''"
        and over = "Some (str ''topic:B'')" and arrayNames = standardArrayNames]
    by (simp add: t str_def)
qed

text \<open>
  Renaming topic \<open>A\<close> to the existing name \<open>B\<close> gives the topic order
  \<open>["B", "B"]\<close>, and \<open>reorderTopics(["A", "A"])\<close> stores the list as it is.
\<close>

theorem topicOrder_no_duplicates_counterexample:
  "distinct (topicOrder (config twoTopicState))
   \<and> topicOrder (config (editTopic twoTopicState (str ''A'') (str ''B''))) = [str ''B'', str ''B'']
   \<and> \<not> distinct (topicOrder (config (editTopic twoTopicState (str ''A'') (str ''B''))))
   \<and> \<not> distinct (topicOrder (config (reorderTopics twoTopicState [str ''A'', str ''A''])))"
  by (simp add: twoTopicState_def addTopic_def initialState_def editTopic_def reorderTopics_def
        str_def)


end
